theory Spec2Isabelle
  imports Complex_Main "HOL-Library.Char_ord" "HOL-Library.List_Lexorder" "HOL-Library.Multiset"
begin

section \<open>Configuration constants of \<^verbatim>\<open>server.ts\<close>\<close>

text \<open>
  Strings are UTF-8 byte strings: the order on \<^typ>\<open>string\<close> (characters by byte value,
  lists lexicographically, a proper prefix first) is the order of \<^verbatim>\<open>memcmp\<close>, which is
  SQLite's default \<^verbatim>\<open>BINARY\<close> collation.
\<close>

definition MEETING_DATES :: "string list" where
  "MEETING_DATES =
    [''3/8'', ''3/15'', ''3/22'',
     ''4/12'', ''4/19'',
     ''5/10'', ''5/17'', ''5/24'',
     ''6/14'', ''6/21'']"

definition INITIAL_NAMES :: "string list" where
  "INITIAL_NAMES =
  [[CHR 0xEB, CHR 0xB0, CHR 0xB0, CHR 0xEB, CHR 0x8B, CHR 0xA4, CHR 0xED, CHR 0x9D, CHR 0xAC],
   [CHR 0xEC, CHR 0x86, CHR 0x90, CHR 0xEC, CHR 0x97, CHR 0xAC, CHR 0xEC, CHR 0x9B, CHR 0x90],
   [CHR 0xEA, CHR 0xB9, CHR 0x80, CHR 0xED, CHR 0x83, CHR 0x9C, CHR 0xEB, CHR 0xA6, CHR 0xB0],
   [CHR 0xED, CHR 0x98, CHR 0x84, CHR 0xEC, CHR 0x9A, CHR 0x94, CHR 0xEC, CHR 0x84, CHR 0xAD],
   [CHR 0xEA, CHR 0xB9, CHR 0x80, CHR 0xEC, CHR 0x8A, CHR 0xB9, CHR 0xEC, CHR 0x9A, CHR 0xB0],
   [CHR 0xEC, CHR 0x9D, CHR 0xB4, CHR 0xEC, CHR 0x9D, CHR 0x80, CHR 0xEC, CHR 0xB4, CHR 0x9D],
   [CHR 0xEC, CHR 0xA1, CHR 0xB0, CHR 0xEC, CHR 0x98, CHR 0x81, CHR 0xEA, CHR 0xB4, CHR 0x91],
   [CHR 0xEB, CHR 0xAC, CHR 0xB8, CHR 0xED, CHR 0x95, CHR 0x98, CHR 0xEC, CHR 0x9D, CHR 0x80],
   [CHR 0xEC, CHR 0xB5, CHR 0x9C, CHR 0xEC, CHR 0x98, CHR 0x88, CHR 0xEC, CHR 0x9D, CHR 0xB8],
   [CHR 0xEB, CHR 0xA1, CHR 0x9C, CHR 0xEC, CHR 0x9D, CHR 0xB4],
   [CHR 0xEC, CHR 0x84, CHR 0x9C, CHR 0xEB, CHR 0x8B, CHR 0xA4, CHR 0xED, CHR 0x98, CHR 0x84],
   [CHR 0xEC, CHR 0x82, CHR 0xAC, CHR 0xEC, CHR 0x98, CHR 0x88, CHR 0xED, CHR 0x95, CHR 0x9C],
   [CHR 0xEC, CHR 0x9D, CHR 0xB4, CHR 0xEB, CHR 0x8B, CHR 0xA4, CHR 0xEC, CHR 0x9C, CHR 0xA8],
   [CHR 0xEB, CHR 0xB0, CHR 0xA9, CHR 0xED, CHR 0x83, CHR 0x9C, CHR 0xEC, CHR 0x82, CHR 0xB0],
   [CHR 0xEC, CHR 0x9D, CHR 0xB4, CHR 0xEC, CHR 0x9D, CHR 0x80, CHR 0xEC, CHR 0x84, CHR 0x9C],
   [CHR 0xEB, CHR 0xAF, CHR 0xBC, CHR 0xEC, CHR 0x9C, CHR 0xA0, CHR 0xEC, CHR 0xA7, CHR 0x84],
   [CHR 0xEC, CHR 0x9D, CHR 0xB4, CHR 0xED, CHR 0x83, CHR 0x9C, CHR 0xEC, CHR 0x9D, CHR 0x80],
   [CHR 0xED, CHR 0x97, CHR 0x88, CHR 0xEC, CHR 0xA7, CHR 0x84, CHR 0xEC, CHR 0xA3, CHR 0xBC],
   [CHR 0xEC, CHR 0x98, CHR 0xA4, CHR 0xEB, CHR 0x82, CHR 0x98, CHR 0xEC, CHR 0x9C, CHR 0xA4],
   [CHR 0xEC, CHR 0x8B, CHR 0x9C, CHR 0xEC, CHR 0x98, CHR 0xA8]]"

section \<open>Values\<close>

text \<open>
  A field of the JSON request body, as \<^verbatim>\<open>express.json()\<close> delivers it. \<open>JUndefined\<close> is a key
  that is absent from the body; \<open>JNum q\<close> is the value of the finite double that
  \<^verbatim>\<open>JSON.parse\<close> produced; \<open>JArr\<close> is an array and \<open>JObj\<close> an object, by its keys.
\<close>

datatype jsval =
  JUndefined | JNull | JBool bool | JNum rat | JStr string
  | JArr "jsval list" | JObj "(string \<times> jsval) list"

text \<open>JavaScript's \<^verbatim>\<open>!v\<close> on those values.\<close>

fun falsy :: "jsval \<Rightarrow> bool" where
  "falsy JUndefined = True"
| "falsy JNull = True"
| "falsy (JBool b) = (\<not> b)"
| "falsy (JNum q) = (q = 0)"
| "falsy (JStr s) = (s = [])"
| "falsy (JArr xs) = False"
| "falsy (JObj kvs) = False"

text \<open>
  A value held in a column of \<^verbatim>\<open>INTEGER\<close> affinity, or compared with one: \<open>NULL\<close>, a number
  (an integral \<^verbatim>\<open>REAL\<close> and the \<^verbatim>\<open>INTEGER\<close> of the same value are one number), or a text that
  SQLite's numeric conversion leaves as text.
\<close>

datatype sqlval = SNull | SNum rat | SText string

text \<open>
  What the code takes from its database library and its build, and does not define:
  whether foreign keys are enforced, and which texts SQLite converts to a number when a
  column of \<^verbatim>\<open>INTEGER\<close> affinity stores them or is compared with them.
\<close>

record sqlite =
  foreign_keys :: bool
  numeric_text :: "string \<Rightarrow> rat option"

text \<open>
  Binding one value to a \<^verbatim>\<open>?\<close> of a prepared statement. The library binds numbers,
  strings and \<^verbatim>\<open>null\<close>, and throws a \<^verbatim>\<open>TypeError\<close> (\<open>None\<close>) for a boolean and for an array
  or an object in the place of a value. The \<open>JUndefined\<close> case is never reached from
  \<open>toggle\<close>.
\<close>

fun bind_param :: "sqlite \<Rightarrow> jsval \<Rightarrow> sqlval option" where
  "bind_param c JUndefined = Some SNull"
| "bind_param c JNull = Some SNull"
| "bind_param c (JBool b) = None"
| "bind_param c (JNum q) = Some (SNum q)"
| "bind_param c (JStr s) = Some (case numeric_text c s of Some q \<Rightarrow> SNum q | None \<Rightarrow> SText s)"
| "bind_param c (JArr xs) = None"
| "bind_param c (JObj kvs) = None"

text \<open>
  Binding the arguments of \<^verbatim>\<open>.get(studentId, dateIndex)\<close> and of the \<^verbatim>\<open>.run\<close> calls. The
  library spreads an argument that is an array over the \<^verbatim>\<open>?\<close> in turn, each element bound
  as a value; it reads an argument that is an object as named parameters, of which these
  statements have none; and it throws unless exactly as many values are given as the
  statement has \<^verbatim>\<open>?\<close>. So the two \<^verbatim>\<open>?\<close> of the key get the two values that the two arguments
  give together, or the call throws (\<open>None\<close>).
\<close>

fun bind_arg :: "sqlite \<Rightarrow> jsval \<Rightarrow> sqlval list option" where
  "bind_arg c (JArr xs) = those (map (bind_param c) xs)"
| "bind_arg c (JObj kvs) = Some []"
| "bind_arg c v = map_option (\<lambda>x. [x]) (bind_param c v)"

definition bind_args :: "sqlite \<Rightarrow> jsval \<Rightarrow> jsval \<Rightarrow> (sqlval \<times> sqlval) option" where
  "bind_args c studentId dateIndex =
     (case (bind_arg c studentId, bind_arg c dateIndex) of
        (Some xs, Some ys) \<Rightarrow> (case xs @ ys of [sid, didx] \<Rightarrow> Some (sid, didx) | _ \<Rightarrow> None)
      | _ \<Rightarrow> None)"

text \<open>SQL's \<^verbatim>\<open>=\<close> in a \<^verbatim>\<open>WHERE\<close> clause: \<open>NULL\<close> equals nothing.\<close>

definition sql_eq :: "sqlval \<Rightarrow> sqlval \<Rightarrow> bool" where
  "sql_eq a b = (a \<noteq> SNull \<and> b \<noteq> SNull \<and> a = b)"

section \<open>The store\<close>

text \<open>
  \<^verbatim>\<open>students (id INTEGER PRIMARY KEY AUTOINCREMENT, name TEXT NOT NULL)\<close> and
  \<^verbatim>\<open>attendance (student_id INTEGER, date_index INTEGER, status INTEGER DEFAULT 0,
  PRIMARY KEY (student_id, date_index), FOREIGN KEY(student_id) REFERENCES students(id))\<close>,
  each table in rowid order, and the \<^verbatim>\<open>sqlite_sequence\<close> counter of \<^verbatim>\<open>students\<close>.
\<close>

record student_row =
  row_id :: int
  row_name :: string

record attendance_row =
  student_id :: sqlval
  date_index :: sqlval
  status :: int

record store =
  students :: "student_row list"
  attendance_rows :: "attendance_row list"
  seq :: int

definition empty_store :: store where
  "empty_store = \<lparr>students = [], attendance_rows = [], seq = 0\<rparr>"

definition key_matches :: "sqlval \<Rightarrow> sqlval \<Rightarrow> attendance_row \<Rightarrow> bool" where
  "key_matches sid didx a = (sql_eq (student_id a) sid \<and> sql_eq (date_index a) didx)"

text \<open>\<^verbatim>\<open>INSERT INTO students (name) VALUES (?)\<close>; returns \<^verbatim>\<open>lastInsertRowid\<close> too.\<close>

definition max_id :: "student_row list \<Rightarrow> int" where
  "max_id rows = fold (\<lambda>r m. max (row_id r) m) rows 0"

definition insertStudent :: "store \<Rightarrow> string \<Rightarrow> int \<times> store" where
  "insertStudent s nm =
     (let i = max (seq s) (max_id (students s)) + 1
      in (i, s\<lparr>students := students s @ [\<lparr>row_id = i, row_name = nm\<rparr>], seq := i\<rparr>))"

text \<open>
  \<^verbatim>\<open>INSERT INTO attendance (student_id, date_index, status) VALUES (?, ?, v)\<close>. It throws
  (\<open>None\<close>) when the primary key is taken, or when foreign keys are enforced and the
  student is neither \<open>NULL\<close> nor the id of a row of \<^verbatim>\<open>students\<close>.
\<close>

definition insertAttendance :: "sqlite \<Rightarrow> store \<Rightarrow> sqlval \<Rightarrow> sqlval \<Rightarrow> int \<Rightarrow> store option" where
  "insertAttendance c s sid didx v =
     (if list_ex (key_matches sid didx) (attendance_rows s) then None
      else if foreign_keys c \<and> sid \<noteq> SNull
              \<and> \<not> list_ex (\<lambda>r. sid = SNum (of_int (row_id r))) (students s) then None
      else Some (s\<lparr>attendance_rows :=
                     attendance_rows s @ [\<lparr>student_id = sid, date_index = didx, status = v\<rparr>]\<rparr>))"

text \<open>\<^verbatim>\<open>SELECT status FROM attendance WHERE student_id = ? AND date_index = ?\<close>, \<^verbatim>\<open>.get\<close>.\<close>

definition selectStatus :: "store \<Rightarrow> sqlval \<Rightarrow> sqlval \<Rightarrow> int option" where
  "selectStatus s sid didx = map_option status (find (key_matches sid didx) (attendance_rows s))"

text \<open>\<^verbatim>\<open>UPDATE attendance SET status = ? WHERE student_id = ? AND date_index = ?\<close>.\<close>

definition updateStatus :: "store \<Rightarrow> int \<Rightarrow> sqlval \<Rightarrow> sqlval \<Rightarrow> store" where
  "updateStatus s v sid didx =
     s\<lparr>attendance_rows :=
         map (\<lambda>a. if key_matches sid didx a then a\<lparr>status := v\<rparr> else a) (attendance_rows s)\<rparr>"

section \<open>Seeding\<close>

datatype seed_outcome = Seeded | NotEmpty | SeedThrew

text \<open>The \<^verbatim>\<open>for\<close> loop of one name: the marks of the dates \<open>i, i+1, ...\<close> in turn.\<close>

fun seedDates :: "sqlite \<Rightarrow> int \<Rightarrow> nat list \<Rightarrow> store \<Rightarrow> store option" where
  "seedDates c studentId [] s = Some s"
| "seedDates c studentId (i # is) s =
     (case insertAttendance c s (SNum (of_int studentId)) (SNum (of_nat i)) 0 of
        None \<Rightarrow> None
      | Some s' \<Rightarrow> seedDates c studentId is s')"

fun seedNames :: "sqlite \<Rightarrow> string list \<Rightarrow> store \<Rightarrow> store option" where
  "seedNames c [] s = Some s"
| "seedNames c (nm # nms) s =
     (let (studentId, s1) = insertStudent s nm
      in case seedDates c studentId [0..<length MEETING_DATES] s1 of
           None \<Rightarrow> None
         | Some s2 \<Rightarrow> seedNames c nms s2)"

text \<open>
  The block run at start-up. The transaction commits every row or, when a statement
  throws, rolls back to the store it started from and throws in turn.
\<close>

definition seed :: "sqlite \<Rightarrow> store \<Rightarrow> seed_outcome \<times> store" where
  "seed c s =
     (if length (students s) = 0 then
        (case seedNames c INITIAL_NAMES s of
           Some s' \<Rightarrow> (Seeded, s')
         | None \<Rightarrow> (SeedThrew, s))
      else (NotEmpty, s))"

section \<open>Reading the snapshot\<close>

text \<open>
  \<^verbatim>\<open>String(n)\<close> of an integer that a number holds exactly (below 2^53, as every id that
  \<^verbatim>\<open>students\<close> gives out is): its decimal numeral.
\<close>

function digits :: "nat \<Rightarrow> string" where
  "digits n =
     (if n < 10 then [''0123456789'' ! n] else digits (n div 10) @ [''0123456789'' ! (n mod 10)])"
  by pat_completeness auto
termination
  by (relation "measure (\<lambda>n. n)") auto

definition js_String :: "int \<Rightarrow> string" where
  "js_String i = (if i < 0 then CHR ''-'' # digits (nat (- i)) else digits (nat i))"

text \<open>
  \<^verbatim>\<open>arr[k] = v\<close> for a numeric key below the array's length, which every call is guarded
  by: an integral key from 0 on is an index; a negative or fractional key names a
  property, and neither an element nor the length changes.
\<close>

definition array_set :: "int list \<Rightarrow> rat \<Rightarrow> int \<Rightarrow> int list" where
  "array_set arr k v = (if 0 \<le> k \<and> of_int \<lfloor>k\<rfloor> = k then arr[nat \<lfloor>k\<rfloor> := v] else arr)"

record Student =
  ident :: string
  name :: string
  attendance :: "int list"

text \<open>
  The body of \<^verbatim>\<open>forEach\<close> in the merge. A \<open>NULL\<close> index passes the comparison (it counts as
  0 there) and then names the property \<^verbatim>\<open>"null"\<close>. A text index fails the comparison or
  names a property too: a text that names an array index is a decimal numeral, and SQLite
  stores those as numbers.
\<close>

definition mergeRow :: "int list \<Rightarrow> attendance_row \<Rightarrow> int list" where
  "mergeRow studentAttendance a =
     (case date_index a of
        SNum q \<Rightarrow>
          if q < of_nat (length MEETING_DATES) then array_set studentAttendance q (status a)
          else studentAttendance
      | _ \<Rightarrow> studentAttendance)"

definition studentAttendance :: "attendance_row list \<Rightarrow> int \<Rightarrow> int list" where
  "studentAttendance rows i =
     foldl mergeRow (replicate (length MEETING_DATES) 0)
       (filter (\<lambda>a. student_id a = SNum (of_int i)) rows)"

text \<open>
  \<^verbatim>\<open>GET /api/students\<close>. \<^verbatim>\<open>ORDER BY name ASC\<close> compares with the \<^verbatim>\<open>BINARY\<close> collation; the
  order it gives to rows of one name is not fixed by SQL and is taken here as rowid order.
\<close>

definition listSnapshot :: "store \<Rightarrow> Student list" where
  "listSnapshot s =
     map (\<lambda>r. \<lparr>ident = js_String (row_id r), name = row_name r,
               attendance = studentAttendance (attendance_rows s) (row_id r)\<rparr>)
       (sort_key row_name (students s))"

section \<open>Toggling a mark and broadcasting it\<close>

datatype readyState = CONNECTING | OPEN | CLOSING | CLOSED

record message =
  msg_type :: string
  payload_studentId :: jsval
  payload_dateIndex :: jsval
  payload_status :: int

datatype response = Success int | Missing400 | DatabaseError500

text \<open>\<^verbatim>\<open>wss.clients.forEach\<close>: the connections, each with its state, and what is sent to whom.\<close>

definition broadcast :: "(nat \<times> readyState) list \<Rightarrow> message \<Rightarrow> (nat \<times> message) list" where
  "broadcast clients m = map (\<lambda>client. (fst client, m)) (filter (\<lambda>client. snd client = OPEN) clients)"

definition broadcastData :: "jsval \<Rightarrow> jsval \<Rightarrow> int \<Rightarrow> message" where
  "broadcastData studentId dateIndex newStatus =
     \<lparr>msg_type = ''UPDATE_ATTENDANCE'', payload_studentId = studentId,
      payload_dateIndex = dateIndex, payload_status = newStatus\<rparr>"

text \<open>The \<^verbatim>\<open>try\<close> block of the handler; every exception ends in the 500 response.\<close>

definition toggle_db ::
  "sqlite \<Rightarrow> store \<Rightarrow> (nat \<times> readyState) list \<Rightarrow> jsval \<Rightarrow> jsval
     \<Rightarrow> response \<times> store \<times> (nat \<times> message) list" where
  "toggle_db c s clients studentId dateIndex =
     (case bind_args c studentId dateIndex of
        Some (sid, didx) \<Rightarrow>
          (case selectStatus s sid didx of
             Some current \<Rightarrow>
               (let newStatus = (if current = 1 then 0 else 1)
                in (Success newStatus, updateStatus s newStatus sid didx,
                    broadcast clients (broadcastData studentId dateIndex newStatus)))
           | None \<Rightarrow>
               (case insertAttendance c s sid didx 1 of
                  Some s' \<Rightarrow>
                    (Success 1, s', broadcast clients (broadcastData studentId dateIndex 1))
                | None \<Rightarrow> (DatabaseError500, s, [])))
      | None \<Rightarrow> (DatabaseError500, s, []))"

text \<open>\<^verbatim>\<open>POST /api/attendance/toggle\<close>: the response, the store and the messages sent.\<close>

definition toggle ::
  "sqlite \<Rightarrow> store \<Rightarrow> (nat \<times> readyState) list \<Rightarrow> jsval \<Rightarrow> jsval
     \<Rightarrow> response \<times> store \<times> (nat \<times> message) list" where
  "toggle c s clients studentId dateIndex =
     (if falsy studentId \<or> dateIndex = JUndefined then (Missing400, s, [])
      else toggle_db c s clients studentId dateIndex)"

section \<open>The client view\<close>

text \<open>
  \<^verbatim>\<open>a.localeCompare(b, 'ko')\<close> is the platform's; the view functions take it as the
  parameter \<open>localeCompare\<close>. \<^verbatim>\<open>Array.prototype.sort\<close> is stable: an element goes before the
  first one that it does not follow.
\<close>

fun insert_by :: "('a \<Rightarrow> 'a \<Rightarrow> int) \<Rightarrow> 'a \<Rightarrow> 'a list \<Rightarrow> 'a list" where
  "insert_by cmp x [] = [x]"
| "insert_by cmp x (y # ys) = (if cmp x y \<le> 0 then x # y # ys else y # insert_by cmp x ys)"

definition sort_by :: "('a \<Rightarrow> 'a \<Rightarrow> int) \<Rightarrow> 'a list \<Rightarrow> 'a list" where
  "sort_by cmp xs = foldr (insert_by cmp) xs []"

record view =
  view_students :: "Student list"
  loading :: bool
  isConnected :: bool
  error_text :: "string option"

datatype 'a reply = Data 'a | Failure

datatype query = SelectStudents | SelectAttendance

definition LOAD_FAILED :: string where
  "LOAD_FAILED =
    [CHR 0xEB, CHR 0x8D, CHR 0xB0, CHR 0xEC, CHR 0x9D, CHR 0xB4, CHR 0xED, CHR 0x84, CHR 0xB0,
     CHR 0x20, CHR 0xEB, CHR 0xA1, CHR 0x9C, CHR 0xEB, CHR 0x94, CHR 0xA9, CHR 0x20, CHR 0xEC,
     CHR 0x8B, CHR 0xA4, CHR 0xED, CHR 0x8C, CHR 0xA8, CHR 0x2E, CHR 0x20, CHR 0x53, CHR 0x75,
     CHR 0x70, CHR 0x61, CHR 0x62, CHR 0x61, CHR 0x73, CHR 0x65, CHR 0x20, CHR 0xEC, CHR 0x84,
     CHR 0xA4, CHR 0xEC, CHR 0xA0, CHR 0x95, CHR 0xEC, CHR 0x9D, CHR 0x84, CHR 0x20, CHR 0xED,
     CHR 0x99, CHR 0x95, CHR 0xEC, CHR 0x9D, CHR 0xB8, CHR 0xED, CHR 0x95, CHR 0xB4, CHR 0xEC,
     CHR 0xA3, CHR 0xBC, CHR 0xEC, CHR 0x84, CHR 0xB8, CHR 0xEC, CHR 0x9A, CHR 0x94, CHR 0x2E]"

text \<open>The roster of the \<^verbatim>\<open>catch\<close> branch.\<close>

definition initialList :: "(string \<Rightarrow> string \<Rightarrow> int) \<Rightarrow> Student list" where
  "initialList localeCompare =
     sort_by (\<lambda>a b. localeCompare (name a) (name b))
       (map (\<lambda>(index, nm). \<lparr>ident = js_String (int index + 1), name = nm,
                               attendance = replicate (length MEETING_DATES) 0\<rparr>)
            (enumerate 0 INITIAL_NAMES))"

text \<open>The merge of the \<^verbatim>\<open>try\<close> branch; its text is that of the server's.\<close>

definition mergedData :: "student_row list \<Rightarrow> attendance_row list \<Rightarrow> Student list" where
  "mergedData studentsData attendanceData =
     map (\<lambda>r. \<lparr>ident = js_String (row_id r), name = row_name r,
               attendance = studentAttendance attendanceData (row_id r)\<rparr>) studentsData"

text \<open>
  \<^verbatim>\<open>fetchStudents\<close>, run once when the view mounts: the replies of its two queries give the
  next view; the queries it issued are returned with it. The second query is issued only
  after the first has succeeded.
\<close>

definition fetchStudents ::
  "(string \<Rightarrow> string \<Rightarrow> int) \<Rightarrow> student_row list reply \<Rightarrow> attendance_row list reply \<Rightarrow> view
     \<Rightarrow> view \<times> query list" where
  "fetchStudents localeCompare studentsReply attendanceReply v =
     (let fallback = v\<lparr>error_text := Some LOAD_FAILED, isConnected := False,
                        view_students := initialList localeCompare, loading := False\<rparr>
      in case studentsReply of
           Failure \<Rightarrow> (fallback, [SelectStudents])
         | Data studentsData \<Rightarrow>
             (case attendanceReply of
                Failure \<Rightarrow> (fallback, [SelectStudents, SelectAttendance])
              | Data attendanceData \<Rightarrow>
                  (v\<lparr>error_text := None,
                     view_students := sort_by (\<lambda>a b. localeCompare (name a) (name b))
                                        (mergedData studentsData attendanceData),
                     isConnected := True, loading := False\<rparr>,
                   [SelectStudents, SelectAttendance])))"

text \<open>
  \<^verbatim>\<open>payload.new\<close> of a realtime event: \<open>None\<close> where the event carries no new row, and
  \<open>new_student_id = None\<close> where the row has no \<^verbatim>\<open>student_id\<close>.
\<close>

record new_record =
  new_student_id :: "int option"
  new_date_index :: int
  new_status :: int

text \<open>The updater that the realtime handler passes to \<^verbatim>\<open>setStudents\<close>.\<close>

definition onRealtimeUpdate :: "new_record option \<Rightarrow> Student list \<Rightarrow> Student list" where
  "onRealtimeUpdate payload_new prevStudents =
     (case payload_new of
        None \<Rightarrow> prevStudents
      | Some newRecord \<Rightarrow>
          (case new_student_id newRecord of
             None \<Rightarrow> prevStudents
           | Some i \<Rightarrow>
               map (\<lambda>student.
                      if ident student = js_String i then
                        student\<lparr>attendance :=
                          (if new_date_index newRecord < int (length (attendance student))
                           then array_set (attendance student) (of_int (new_date_index newRecord))
                                  (new_status newRecord)
                           else attendance student)\<rparr>
                      else student) prevStudents))"

section \<open>Notions of the specification\<close>

text \<open>
  The mark of a participant at a date index as a stored row gives it: the status of the
  row of that pair (the last one, should there be several), and absent, 0, without one.
\<close>

definition marks_of :: "attendance_row list \<Rightarrow> int \<Rightarrow> nat \<Rightarrow> attendance_row list" where
  "marks_of rows i d =
     filter (\<lambda>a. student_id a = SNum (of_int i) \<and> date_index a = SNum (of_nat d)) rows"

definition stored_mark :: "attendance_row list \<Rightarrow> int \<Rightarrow> nat \<Rightarrow> int" where
  "stored_mark rows i d = (case marks_of rows i d of [] \<Rightarrow> 0 | a # as \<Rightarrow> status (last (a # as)))"

text \<open>A date index of the fixed sequence: an integer from 0 to N - 1.\<close>

definition valid_index :: "sqlval \<Rightarrow> bool" where
  "valid_index v =
     (case v of
        SNum q \<Rightarrow> 0 \<le> q \<and> q < of_nat (length MEETING_DATES) \<and> of_int \<lfloor>q\<rfloor> = q
      | _ \<Rightarrow> False)"

text \<open>A value that references a row of \<^verbatim>\<open>students\<close>.\<close>

definition known_student :: "store \<Rightarrow> sqlval \<Rightarrow> bool" where
  "known_student s sid = list_ex (\<lambda>r. sid = SNum (of_int (row_id r))) (students s)"

text \<open>The two halves of the invariant of the marks.\<close>

definition every_pair_marked :: "store \<Rightarrow> bool" where
  "every_pair_marked s =
     list_all (\<lambda>r. list_all (\<lambda>d. length (marks_of (attendance_rows s) (row_id r) d) = 1)
                       [0..<length MEETING_DATES])
       (students s)"

definition no_stray_index :: "store \<Rightarrow> bool" where
  "no_stray_index s = list_all (\<lambda>a. valid_index (date_index a)) (attendance_rows s)"

text \<open>What the schema and the handlers keep true of the table of marks.\<close>

fun pk_unique :: "attendance_row list \<Rightarrow> bool" where
  "pk_unique [] = True"
| "pk_unique (a # as) = (\<not> list_ex (key_matches (student_id a) (date_index a)) as \<and> pk_unique as)"

definition binary_marks :: "store \<Rightarrow> bool" where
  "binary_marks s = (\<forall>a \<in> set (attendance_rows s). status a = 0 \<or> status a = 1)"

definition references_kept :: "store \<Rightarrow> bool" where
  "references_kept s =
     (\<forall>a \<in> set (attendance_rows s). student_id a = SNull \<or> known_student s (student_id a))"

text \<open>
  Seeding in closed form: the id that the next row of \<^verbatim>\<open>students\<close> gets, the rows written
  for one participant (one for each date, all absent), and the store after one name.
\<close>

definition next_id :: "store \<Rightarrow> int" where
  "next_id s = max (seq s) (max_id (students s)) + 1"

definition seed_rows :: "int \<Rightarrow> nat list \<Rightarrow> attendance_row list" where
  "seed_rows i ds =
     map (\<lambda>d. \<lparr>student_id = SNum (of_int i), date_index = SNum (of_nat d), status = 0\<rparr>) ds"

definition seed_one :: "string \<Rightarrow> store \<Rightarrow> store" where
  "seed_one nm s =
     s\<lparr>students := students s @ [\<lparr>row_id = next_id s, row_name = nm\<rparr>],
       seq := next_id s,
       attendance_rows := attendance_rows s @ seed_rows (next_id s) [0..<length MEETING_DATES]\<rparr>"

text \<open>No row of marks mentions an id that \<^verbatim>\<open>students\<close> has yet to give out.\<close>

definition ids_given :: "store \<Rightarrow> bool" where
  "ids_given s =
     (\<forall>a \<in> set (attendance_rows s). \<forall>q. student_id a = SNum q \<longrightarrow> q < of_int (next_id s))"

text \<open>
  A comparison that \<^verbatim>\<open>sort\<close> can order a list by: any two elements are comparable, and
  the comparison is transitive.
\<close>

definition consistent_comparator :: "('a \<Rightarrow> 'a \<Rightarrow> int) \<Rightarrow> bool" where
  "consistent_comparator cmp =
     ((\<forall>a b. cmp a b \<le> 0 \<or> cmp b a \<le> 0)
      \<and> (\<forall>a b c. cmp a b \<le> 0 \<and> cmp b c \<le> 0 \<longrightarrow> cmp a c \<le> 0))"

text \<open>
  The comparison by bytes. On names written in precomposed Hangul syllables, as the seed
  names are, it orders as the Korean collation does.
\<close>

definition byte_compare :: "string \<Rightarrow> string \<Rightarrow> int" where
  "byte_compare a b = (if a < b then - 1 else if b < a then 1 else 0)"





section \<open>Concrete environments and stores\<close>

text \<open>
  An environment for the examples: foreign keys enforced, and of the texts that SQLite
  converts to numbers only the plain decimal numerals, which the examples use.
\<close>

fun digits_value :: "string \<Rightarrow> nat \<Rightarrow> nat option" where
  "digits_value [] acc = Some acc"
| "digits_value (ch # cs) acc =
     (if CHR ''0'' \<le> ch \<and> ch \<le> CHR ''9''
      then digits_value cs (10 * acc + (of_char ch - 48)) else None)"

definition decimal_text :: "string \<Rightarrow> rat option" where
  "decimal_text t = (if t = [] then None else map_option of_nat (digits_value t 0))"

definition sqlite_fk :: sqlite where
  "sqlite_fk = \<lparr>foreign_keys = True, numeric_text = decimal_text\<rparr>"

text \<open>The store after the first start: \<open>seed\<close> run on the empty store.\<close>

definition seeded :: store where
  "seeded = snd (seed sqlite_fk empty_store)"

text \<open>A store of one participant with a single mark.\<close>

definition one_student :: store where
  "one_student =
     \<lparr>students = [\<lparr>row_id = 1, row_name = ''Kim''\<rparr>],
      attendance_rows = [\<lparr>student_id = SNum 1, date_index = SNum 0, status = 0\<rparr>],
      seq = 1\<rparr>"

text \<open>The view as \<^verbatim>\<open>useState\<close> initialises it, and a view of two participants.\<close>

definition mounting :: view where
  "mounting = \<lparr>view_students = [], loading = True, isConnected = False, error_text = None\<rparr>"

definition two_cards :: "Student list" where
  "two_cards =
     [\<lparr>ident = ''12'', name = ''Ahn'', attendance = [0, 1, 0, 0, 0, 0, 0, 0, 0, 0]\<rparr>,
      \<lparr>ident = ''7'', name = ''Kim'', attendance = [1, 1, 1, 0, 0, 0, 0, 0, 0, 0]\<rparr>]"

text \<open>
  A store that was not seeded in full: the second participant has no row, and the first has
  rows whose index is past the last date, negative, and \<open>NULL\<close>.
\<close>

definition partly_seeded :: store where
  "partly_seeded =
     \<lparr>students = [\<lparr>row_id = 1, row_name = ''Kim''\<rparr>, \<lparr>row_id = 2, row_name = ''Ahn''\<rparr>],
      attendance_rows = [\<lparr>student_id = SNum 1, date_index = SNum 3, status = 1\<rparr>,
                         \<lparr>student_id = SNum 1, date_index = SNum 12, status = 1\<rparr>,
                         \<lparr>student_id = SNum 1, date_index = SNum (- 1), status = 1\<rparr>,
                         \<lparr>student_id = SNum 1, date_index = SNull, status = 1\<rparr>],
      seq = 2\<rparr>"

section \<open>The presence check of the toggle request\<close>

lemma toggle_db_not_400: "fst (toggle_db c s clients studentId dateIndex) \<noteq> Missing400"
  by (simp add: toggle_db_def Let_def split: option.splits prod.splits)

lemma falsy_iff: "falsy v = (v \<in> {JUndefined, JNull, JBool False, JNum 0, JStr []})"
  by (cases v) auto

text \<open>
  C10. The check of the request is by falsiness on one side only: the request is answered
  400, with the store as it was and nothing sent, exactly when \<open>studentId\<close> is falsy (absent,
  \<open>null\<close>, \<open>false\<close>, 0 or the empty string) or \<open>dateIndex\<close> is absent; every other request, whatever
  the value of its \<open>dateIndex\<close> (0, a negative or fractional number, \<open>null\<close>), runs the database
  path.
\<close>

theorem toggle_validation:
  "(fst (toggle c s clients studentId dateIndex) = Missing400)
     = (falsy studentId \<or> dateIndex = JUndefined)
   \<and> (falsy studentId \<or> dateIndex = JUndefined
        \<longrightarrow> toggle c s clients studentId dateIndex = (Missing400, s, []))
   \<and> (\<not> falsy studentId \<and> dateIndex \<noteq> JUndefined
        \<longrightarrow> toggle c s clients studentId dateIndex = toggle_db c s clients studentId dateIndex)
   \<and> falsy studentId = (studentId \<in> {JUndefined, JNull, JBool False, JNum 0, JStr []})"
  using toggle_db_not_400 [of c s clients studentId dateIndex]
  by (simp add: toggle_def falsy_iff)

theorem toggle_validation_witness:
  "toggle sqlite_fk one_student [(0, OPEN)] (JNum 0) (JNum 0) = (Missing400, one_student, [])
   \<and> toggle sqlite_fk one_student [(0, OPEN)] (JStr []) (JNum 0) = (Missing400, one_student, [])
   \<and> toggle sqlite_fk one_student [(0, OPEN)] (JNum 1) JUndefined = (Missing400, one_student, [])
   \<and> toggle sqlite_fk one_student [(0, OPEN)] (JNum 1) (JNum 0)
       = toggle_db sqlite_fk one_student [(0, OPEN)] (JNum 1) (JNum 0)
   \<and> toggle sqlite_fk one_student [(0, OPEN)] (JNum 1) JNull
       = toggle_db sqlite_fk one_student [(0, OPEN)] (JNum 1) JNull
   \<and> toggle sqlite_fk one_student [(0, OPEN)] (JNum 1) (JNum (- 1))
       = toggle_db sqlite_fk one_student [(0, OPEN)] (JNum 1) (JNum (- 1))
   \<and> toggle sqlite_fk one_student [(0, OPEN)] (JNum 1) (JNum (3 / 2))
       = toggle_db sqlite_fk one_student [(0, OPEN)] (JNum 1) (JNum (3 / 2))"
  using toggle_validation [of sqlite_fk one_student "[(0, OPEN)]" "JNum 0" "JNum 0"]
        toggle_validation [of sqlite_fk one_student "[(0, OPEN)]" "JStr []" "JNum 0"]
        toggle_validation [of sqlite_fk one_student "[(0, OPEN)]" "JNum 1" JUndefined]
        toggle_validation [of sqlite_fk one_student "[(0, OPEN)]" "JNum 1" "JNum 0"]
        toggle_validation [of sqlite_fk one_student "[(0, OPEN)]" "JNum 1" JNull]
        toggle_validation [of sqlite_fk one_student "[(0, OPEN)]" "JNum 1" "JNum (- 1)"]
        toggle_validation [of sqlite_fk one_student "[(0, OPEN)]" "JNum 1" "JNum (3 / 2)"]
  by simp

section \<open>The broadcast\<close>

text \<open>
  C7. A toggle that answers with success and \<open>newStatus\<close> has sent the event
  \<^verbatim>\<open>UPDATE_ATTENDANCE\<close>, carrying the request's \<open>studentId\<close> and \<open>dateIndex\<close> and that \<open>newStatus\<close>,
  once to each connection that is open, in the order of the connections, and to no other;
  a toggle that answers with an error has sent nothing.
\<close>

theorem toggle_broadcast:
  "(\<forall>newStatus s' sent.
      toggle c s clients studentId dateIndex = (Success newStatus, s', sent)
      \<longrightarrow> sent = map (\<lambda>client. (fst client,
                      \<lparr>msg_type = ''UPDATE_ATTENDANCE'', payload_studentId = studentId,
                       payload_dateIndex = dateIndex, payload_status = newStatus\<rparr>))
                    (filter (\<lambda>client. snd client = OPEN) clients))
   \<and> (\<forall>r s' sent.
        toggle c s clients studentId dateIndex = (r, s', sent) \<and> (\<forall>v. r \<noteq> Success v)
        \<longrightarrow> sent = [])"
  by (auto simp: toggle_def toggle_db_def broadcast_def broadcastData_def Let_def
           split: option.splits if_splits prod.splits)

lemma one_student_toggle:
  "toggle sqlite_fk one_student
     [(0, OPEN), (1, CLOSING), (2, OPEN), (3, CONNECTING), (4, CLOSED)] (JStr ''1'') (JNum 0)
     = (Success 1,
        one_student\<lparr>attendance_rows :=
                      [\<lparr>student_id = SNum 1, date_index = SNum 0, status = 1\<rparr>]\<rparr>,
        [(0, broadcastData (JStr ''1'') (JNum 0) 1), (2, broadcastData (JStr ''1'') (JNum 0) 1)])"
  by (simp add: toggle_def toggle_db_def bind_args_def sqlite_fk_def decimal_text_def
        one_student_def selectStatus_def key_matches_def sql_eq_def updateStatus_def broadcast_def)

lemma one_student_toggle_unknown:
  "toggle sqlite_fk one_student [(0, OPEN), (1, CLOSING), (2, OPEN)] (JNum 7) (JNum 0)
     = (DatabaseError500, one_student, [])"
  by (simp add: toggle_def toggle_db_def bind_args_def sqlite_fk_def one_student_def
        selectStatus_def key_matches_def sql_eq_def insertAttendance_def)

lemma one_student_toggle_spread:
  "toggle sqlite_fk one_student [(0, OPEN)] (JArr [JNum 1, JNum 0]) (JArr [])
     = (Success 1,
        one_student\<lparr>attendance_rows :=
                      [\<lparr>student_id = SNum 1, date_index = SNum 0, status = 1\<rparr>]\<rparr>,
        [(0, broadcastData (JArr [JNum 1, JNum 0]) (JArr []) 1)])"
  by (simp add: toggle_def toggle_db_def bind_args_def sqlite_fk_def one_student_def
        selectStatus_def key_matches_def sql_eq_def updateStatus_def broadcast_def)

theorem toggle_broadcast_witness:
  "toggle sqlite_fk one_student
     [(0, OPEN), (1, CLOSING), (2, OPEN), (3, CONNECTING), (4, CLOSED)] (JStr ''1'') (JNum 0)
     = (Success 1,
        one_student\<lparr>attendance_rows :=
                      [\<lparr>student_id = SNum 1, date_index = SNum 0, status = 1\<rparr>]\<rparr>,
        [(0, \<lparr>msg_type = ''UPDATE_ATTENDANCE'', payload_studentId = JStr ''1'',
              payload_dateIndex = JNum 0, payload_status = 1\<rparr>),
         (2, \<lparr>msg_type = ''UPDATE_ATTENDANCE'', payload_studentId = JStr ''1'',
              payload_dateIndex = JNum 0, payload_status = 1\<rparr>)])
   \<and> toggle sqlite_fk one_student [(0, OPEN), (1, CLOSING), (2, OPEN)] (JNum 7) (JNum 0)
       = (DatabaseError500, one_student, [])"
  using toggle_broadcast [of sqlite_fk one_student
          "[(0, OPEN), (1, CLOSING), (2, OPEN), (3, CONNECTING), (4, CLOSED)]" "JStr ''1''" "JNum 0"]
        toggle_broadcast [of sqlite_fk one_student "[(0, OPEN), (1, CLOSING), (2, OPEN)]"
          "JNum 7" "JNum 0"]
        one_student_toggle one_student_toggle_unknown
  by (simp add: broadcastData_def)

section \<open>The snapshot's marks\<close>

lemma length_dates: "length MEETING_DATES = 10"
  by (simp add: MEETING_DATES_def)

lemma every_pair_marked_iff:
  "every_pair_marked s =
     (\<forall>r \<in> set (students s). \<forall>d \<in> set [0..<length MEETING_DATES].
        length (marks_of (attendance_rows s) (row_id r) d) = 1)"
  by (simp add: every_pair_marked_def list_all_iff)

lemma no_stray_index_iff:
  "no_stray_index s = (\<forall>a \<in> set (attendance_rows s). valid_index (date_index a))"
  by (simp add: no_stray_index_def list_all_iff)

lemma array_set_length [simp]: "length (array_set arr k v) = length arr"
  by (simp add: array_set_def)

lemma mergeRow_length [simp]: "length (mergeRow arr a) = length arr"
  by (simp add: mergeRow_def split: sqlval.splits)

lemma foldl_mergeRow_length [simp]: "length (foldl mergeRow arr rows) = length arr"
  by (induction rows arbitrary: arr) simp_all

lemma studentAttendance_length [simp]:
  "length (studentAttendance rows i) = length MEETING_DATES"
  by (simp add: studentAttendance_def)

lemma index_key:
  "0 \<le> q \<Longrightarrow> of_int \<lfloor>q\<rfloor> = q \<Longrightarrow> (nat \<lfloor>q\<rfloor> = d) = (q = of_nat d)" for q :: rat
  by (metis floor_of_nat nat_int of_nat_nat zero_le_floor)

lemma mergeRow_nth:
  assumes "length arr = length MEETING_DATES" "d < length MEETING_DATES"
  shows "mergeRow arr a ! d = (if date_index a = SNum (of_nat d) then status a else arr ! d)"
proof (cases "date_index a")
  case (SNum q)
  show ?thesis
  proof (cases "q < of_nat (length MEETING_DATES) \<and> 0 \<le> q \<and> of_int \<lfloor>q\<rfloor> = q")
    case True
    then have "(nat \<lfloor>q\<rfloor> = d) = (q = of_nat d)" using index_key by blast
    with True SNum assms show ?thesis
      by (auto simp: mergeRow_def array_set_def)
  next
    case False
    have "q \<noteq> of_nat d"
    proof
      assume "q = of_nat d"
      then have "q < of_nat (length MEETING_DATES) \<and> 0 \<le> q \<and> of_int \<lfloor>q\<rfloor> = q"
        using assms(2) by simp
      with False show False by blast
    qed
    with False SNum show ?thesis
      by (auto simp: mergeRow_def array_set_def)
  qed
qed (simp_all add: mergeRow_def)

lemma studentAttendance_snoc:
  "studentAttendance (rows @ [a]) i =
     (if student_id a = SNum (of_int i) then mergeRow (studentAttendance rows i) a
      else studentAttendance rows i)"
  by (simp add: studentAttendance_def)

lemma marks_of_snoc:
  "marks_of (rows @ [a]) i d =
     (if student_id a = SNum (of_int i) \<and> date_index a = SNum (of_nat d)
      then marks_of rows i d @ [a] else marks_of rows i d)"
  by (simp add: marks_of_def)

lemma studentAttendance_nth:
  "d < length MEETING_DATES \<Longrightarrow> studentAttendance rows i ! d = stored_mark rows i d"
proof (induction rows rule: rev_induct)
  case Nil
  then show ?case by (simp add: studentAttendance_def stored_mark_def marks_of_def)
next
  case (snoc a rows)
  then show ?case
    by (auto simp: studentAttendance_snoc mergeRow_nth marks_of_snoc stored_mark_def
             split: list.splits)
qed

lemma studentAttendance_marks:
  "studentAttendance rows i = map (stored_mark rows i) [0..<length MEETING_DATES]"
  by (rule nth_equalityI) (simp_all add: studentAttendance_nth)

text \<open>
  C5. Whatever the store holds, the snapshot has one entry for each participant, none
  left out; the attendance array of an entry has exactly N elements, element \<open>d\<close> being the
  mark stored for date index \<open>d\<close>; a pair without a row reads as 0, absent.
\<close>

theorem listSnapshot_complete:
  "length (listSnapshot s) = length (students s)
   \<and> mset (listSnapshot s)
       = image_mset (\<lambda>r. \<lparr>ident = js_String (row_id r), name = row_name r,
                           attendance = map (stored_mark (attendance_rows s) (row_id r))
                                          [0..<length MEETING_DATES]\<rparr>)
           (mset (students s))
   \<and> (\<forall>e \<in> set (listSnapshot s). length (attendance e) = length MEETING_DATES)
   \<and> (\<forall>i d. marks_of (attendance_rows s) i d = []
        \<longrightarrow> stored_mark (attendance_rows s) i d = 0)
   \<and> (\<forall>i d a. marks_of (attendance_rows s) i d = [a]
        \<longrightarrow> stored_mark (attendance_rows s) i d = status a)"
proof -
  have "mset (listSnapshot s)
       = image_mset (\<lambda>r. \<lparr>ident = js_String (row_id r), name = row_name r,
                           attendance = map (stored_mark (attendance_rows s) (row_id r))
                                          [0..<length MEETING_DATES]\<rparr>)
           (mset (sort_key row_name (students s)))"
    by (simp add: listSnapshot_def studentAttendance_marks)
  then show ?thesis
    by (auto simp: listSnapshot_def stored_mark_def)
qed

theorem listSnapshot_complete_witness:
  "length (listSnapshot partly_seeded) = 2
   \<and> map (\<lambda>e. length (attendance e)) (listSnapshot partly_seeded) = [10, 10]
   \<and> marks_of (attendance_rows partly_seeded) 2 0 = []
   \<and> stored_mark (attendance_rows partly_seeded) 2 0 = 0
   \<and> marks_of (attendance_rows partly_seeded) 1 3
       = [\<lparr>student_id = SNum 1, date_index = SNum 3, status = 1\<rparr>]
   \<and> stored_mark (attendance_rows partly_seeded) 1 3 = 1"
  using listSnapshot_complete [of partly_seeded]
  by (simp add: partly_seeded_def marks_of_def MEETING_DATES_def listSnapshot_def)

section \<open>Toggling twice\<close>

lemma key_matches_num:
  "key_matches (SNum x) (SNum y) a = (student_id a = SNum x \<and> date_index a = SNum y)"
  by (auto simp: key_matches_def sql_eq_def)

lemma key_matches_status [simp]:
  "key_matches sid didx (a\<lparr>status := v\<rparr>) = key_matches sid didx a"
  by (simp add: key_matches_def)

lemma key_matches_same:
  "key_matches sid didx a \<Longrightarrow> key_matches sid didx b
     \<Longrightarrow> key_matches (student_id a) (date_index a) b"
  by (auto simp: key_matches_def sql_eq_def)

lemma key_matches_fields:
  "key_matches sid didx a \<Longrightarrow> student_id a = sid \<and> date_index a = didx \<and> sid \<noteq> SNull \<and> didx \<noteq> SNull"
  by (auto simp: key_matches_def sql_eq_def)

lemma marks_of_key: 
  "marks_of rows i d = filter (key_matches (SNum (of_int i)) (SNum (of_nat d))) rows"
  by (simp add: marks_of_def key_matches_num [abs_def])

lemma selectStatus_None:
  "(selectStatus s sid didx = None) = (\<not> list_ex (key_matches sid didx) (attendance_rows s))"
  by (auto simp: selectStatus_def find_None_iff list_ex_iff)

lemma selectStatus_Some:
  "selectStatus s sid didx = Some cur \<Longrightarrow>
     \<exists>a. find (key_matches sid didx) (attendance_rows s) = Some a \<and> status a = cur
         \<and> a \<in> set (attendance_rows s) \<and> key_matches sid didx a"
  by (auto simp: selectStatus_def find_Some_iff)

lemma bind_arg_scalar: "bind_param c v = Some x \<Longrightarrow> bind_arg c v = Some [x]"
  by (cases v) auto

lemma bind_args_scalars:
  "bind_param c a = Some x \<Longrightarrow> bind_param c b = Some y \<Longrightarrow> bind_args c a b = Some (x, y)"
  by (simp add: bind_args_def bind_arg_scalar)

lemma toggle_bound_args:
  assumes "\<not> falsy studentId" "dateIndex \<noteq> JUndefined"
    and "bind_args c studentId dateIndex = Some (sid, didx)"
  shows "toggle c s clients studentId dateIndex =
     (case selectStatus s sid didx of
        Some cur \<Rightarrow>
          (Success (if cur = 1 then 0 else 1),
           updateStatus s (if cur = 1 then 0 else 1) sid didx,
           broadcast clients (broadcastData studentId dateIndex (if cur = 1 then 0 else 1)))
      | None \<Rightarrow>
          (case insertAttendance c s sid didx 1 of
             Some s' \<Rightarrow> (Success 1, s', broadcast clients (broadcastData studentId dateIndex 1))
           | None \<Rightarrow> (DatabaseError500, s, [])))"
  using assms by (simp add: toggle_def toggle_db_def Let_def split: option.splits)

lemma toggle_bound:
  assumes "\<not> falsy studentId" "dateIndex \<noteq> JUndefined"
    and "bind_param c studentId = Some sid" "bind_param c dateIndex = Some didx"
  shows "toggle c s clients studentId dateIndex =
     (case selectStatus s sid didx of
        Some cur \<Rightarrow>
          (Success (if cur = 1 then 0 else 1),
           updateStatus s (if cur = 1 then 0 else 1) sid didx,
           broadcast clients (broadcastData studentId dateIndex (if cur = 1 then 0 else 1)))
      | None \<Rightarrow>
          (case insertAttendance c s sid didx 1 of
             Some s' \<Rightarrow> (Success 1, s', broadcast clients (broadcastData studentId dateIndex 1))
           | None \<Rightarrow> (DatabaseError500, s, [])))"
  using assms(1,2) bind_args_scalars [OF assms(3,4)] by (rule toggle_bound_args)

lemma filter_unique:
  "pk_unique rows \<Longrightarrow> find (key_matches sid didx) rows = Some a
     \<Longrightarrow> filter (key_matches sid didx) rows = [a]"
proof (induction rows)
  case Nil
  then show ?case by simp
next
  case (Cons x xs)
  show ?case
  proof (cases "key_matches sid didx x")
    case True
    have "\<not> key_matches sid didx b" if "b \<in> set xs" for b
    proof
      assume "key_matches sid didx b"
      with True have "key_matches (student_id x) (date_index x) b"
        by (rule key_matches_same)
      with that Cons.prems(1) show False by (auto simp: list_ex_iff)
    qed
    then have "filter (key_matches sid didx) xs = []" by (simp add: filter_empty_conv)
    with True Cons.prems(2) show ?thesis by simp
  next
    case False
    with Cons show ?thesis by simp
  qed
qed

lemma update_id:
  assumes "pk_unique (attendance_rows s)"
    and "find (key_matches sid didx) (attendance_rows s) = Some a"
  shows "updateStatus s (status a) sid didx = s"
proof -
  have "filter (key_matches sid didx) (attendance_rows s) = [a]"
    using assms by (rule filter_unique)
  then have "set (filter (key_matches sid didx) (attendance_rows s)) = {a}" by simp
  then have "\<forall>b \<in> set (attendance_rows s). key_matches sid didx b \<longrightarrow> b = a"
    by auto
  then have "map (\<lambda>b. if key_matches sid didx b then b\<lparr>status := status a\<rparr> else b) (attendance_rows s)
         = attendance_rows s"
    by (simp add: map_idI)
  then show ?thesis by (simp add: updateStatus_def)
qed

lemma update_update:
  "updateStatus (updateStatus s v sid didx) v' sid didx = updateStatus s v' sid didx"
  by (simp add: updateStatus_def comp_def if_distrib cong: if_cong)

lemma find_update:
  "find (key_matches sid didx) (map (\<lambda>b. if key_matches sid didx b then b\<lparr>status := v\<rparr> else b) rows)
     = map_option (\<lambda>b. b\<lparr>status := v\<rparr>) (find (key_matches sid didx) rows)"
  by (induction rows) simp_all

lemma select_update:
  "selectStatus s sid didx = Some cur \<Longrightarrow> selectStatus (updateStatus s v sid didx) sid didx = Some v"
  by (auto simp: selectStatus_def updateStatus_def find_update)

lemma marks_of_update:
  "marks_of (attendance_rows (updateStatus s v sid didx)) i d
     = map (\<lambda>b. if key_matches sid didx b then b\<lparr>status := v\<rparr> else b)
         (marks_of (attendance_rows s) i d)"
  by (simp add: marks_of_def updateStatus_def filter_map comp_def if_distrib cong: if_cong)

lemma known_student_iff:
  "known_student s (SNum (of_int i)) = (\<exists>r \<in> set (students s). row_id r = i)"
  by (auto simp: known_student_def list_ex_iff)

lemma insert_fresh:
  assumes "\<not> list_ex (key_matches sid didx) (attendance_rows s)"
    and "foreign_keys c \<longrightarrow> sid = SNull \<or> known_student s sid"
  shows "insertAttendance c s sid didx v
           = Some (s\<lparr>attendance_rows :=
                       attendance_rows s @ [\<lparr>student_id = sid, date_index = didx, status = v\<rparr>]\<rparr>)"
  using assms by (auto simp: insertAttendance_def known_student_def)

lemma find_snoc:
  "find P (xs @ [x]) = (case find P xs of Some y \<Rightarrow> Some y | None \<Rightarrow> if P x then Some x else None)"
  by (induction xs) simp_all

lemma listSnapshot_cong_valid:
  assumes "students s' = students s"
    and "\<And>j d. d < length MEETING_DATES
           \<Longrightarrow> stored_mark (attendance_rows s') j d = stored_mark (attendance_rows s) j d"
  shows "listSnapshot s' = listSnapshot s"
  using assms by (simp add: listSnapshot_def studentAttendance_marks)

text \<open>
  C3. For a request that names an existing participant and a date index from 0 to N - 1,
  on a store whose marks are binary and whose keys are unique (as seeding and every toggle
  keep them): two toggles in a row both
  succeed, each returns the binary value it wrote (the flip of the mark it found), and
  the mark, and the whole snapshot, are afterwards what they were before.
\<close>

theorem toggle_twice:
  assumes uniq: "pk_unique (attendance_rows s)" and bin: "binary_marks s"
    and known: "known_student s (SNum (of_int i))" and d: "d < length MEETING_DATES"
    and sid: "bind_param c studentId = Some (SNum (of_int i))" and truthy: "\<not> falsy studentId"
    and didx: "bind_param c dateIndex = Some (SNum (of_nat d))"
  shows "\<exists>v1 v2 s1 s2 sent1 sent2.
           toggle c s clients studentId dateIndex = (Success v1, s1, sent1)
         \<and> toggle c s1 clients' studentId dateIndex = (Success v2, s2, sent2)
         \<and> (v1 = 0 \<or> v1 = 1)
         \<and> v1 = 1 - stored_mark (attendance_rows s) i d
         \<and> stored_mark (attendance_rows s1) i d = v1
         \<and> v2 = 1 - v1
         \<and> stored_mark (attendance_rows s2) i d = v2
         \<and> stored_mark (attendance_rows s2) i d = stored_mark (attendance_rows s) i d
         \<and> listSnapshot s2 = listSnapshot s"
proof -
  let ?sid = "SNum (of_int i)" and ?didx = "SNum (of_nat d)"
  let ?km = "key_matches ?sid ?didx"
  have present: "dateIndex \<noteq> JUndefined" using didx by auto
  note tb = toggle_bound [OF truthy present sid didx]
  show ?thesis
  proof (cases "selectStatus s ?sid ?didx")
    case (Some cur)
    then obtain a where a: "find ?km (attendance_rows s) = Some a" "status a = cur"
        "a \<in> set (attendance_rows s)" "?km a"
      using selectStatus_Some by blast
    from a(2,3) bin have cur: "cur = 0 \<or> cur = 1" by (auto simp: binary_marks_def)
    have ms: "marks_of (attendance_rows s) i d = [a]"
      using filter_unique [OF uniq a(1)] by (simp add: marks_of_key)
    then have m0: "stored_mark (attendance_rows s) i d = cur"
      using a(2) by (simp add: stored_mark_def)
    let ?n1 = "if cur = 1 then 0 else (1::int)"
    let ?s1 = "updateStatus s ?n1 ?sid ?didx"
    have t1: "toggle c s clients studentId dateIndex
                = (Success ?n1, ?s1, broadcast clients (broadcastData studentId dateIndex ?n1))"
      using Some by (simp add: tb)
    have sel1: "selectStatus ?s1 ?sid ?didx = Some ?n1"
      using Some by (rule select_update)
    have n2: "(if ?n1 = 1 then 0 else (1::int)) = cur" using cur by auto
    have s2: "updateStatus ?s1 cur ?sid ?didx = s"
      using update_id [OF uniq a(1)] a(2) by (simp add: update_update)
    have t2: "toggle c ?s1 clients' studentId dateIndex
                = (Success cur, s, broadcast clients' (broadcastData studentId dateIndex cur))"
      using sel1 n2 s2 by (simp add: toggle_bound [OF truthy present sid didx])
    have m1: "stored_mark (attendance_rows ?s1) i d = ?n1"
      using a(4) by (simp add: marks_of_update ms stored_mark_def)
    from t1 t2 m0 m1 cur show ?thesis by auto
  next
    case None
    then have nomatch: "\<not> list_ex ?km (attendance_rows s)" by (simp add: selectStatus_None)
    then have ms: "marks_of (attendance_rows s) i d = []"
      by (simp add: marks_of_key list_ex_iff filter_empty_conv)
    then have m0: "stored_mark (attendance_rows s) i d = 0" by (simp add: stored_mark_def)
    let ?new = "\<lambda>v. \<lparr>student_id = ?sid, date_index = ?didx, status = v\<rparr>"
    let ?s1 = "s\<lparr>attendance_rows := attendance_rows s @ [?new 1]\<rparr>"
    let ?s2 = "s\<lparr>attendance_rows := attendance_rows s @ [?new 0]\<rparr>"
    have ins: "insertAttendance c s ?sid ?didx 1 = Some ?s1"
      using nomatch known by (simp add: insert_fresh)
    have t1: "toggle c s clients studentId dateIndex
                = (Success 1, ?s1, broadcast clients (broadcastData studentId dateIndex 1))"
      using None ins by (simp add: tb)
    have fnone: "find ?km (attendance_rows s) = None"
      using nomatch by (simp add: find_None_iff list_ex_iff)
    have sel1: "selectStatus ?s1 ?sid ?didx = Some 1"
      using fnone by (simp add: selectStatus_def find_snoc key_matches_num)
    have unchanged: "map (\<lambda>b. if ?km b then b\<lparr>status := 0\<rparr> else b) (attendance_rows s)
                       = attendance_rows s"
      using nomatch by (simp add: map_idI list_ex_iff)
    have s2: "updateStatus ?s1 0 ?sid ?didx = ?s2"
      using unchanged by (simp add: updateStatus_def key_matches_num)
    have t2: "toggle c ?s1 clients' studentId dateIndex
                = (Success 0, ?s2, broadcast clients' (broadcastData studentId dateIndex 0))"
      using sel1 s2 by (simp add: toggle_bound [OF truthy present sid didx])
    have m1: "stored_mark (attendance_rows ?s1) i d = 1"
      by (simp add: marks_of_snoc ms stored_mark_def)
    have m2: "stored_mark (attendance_rows s @ [?new 0]) j d' = stored_mark (attendance_rows s) j d'" for j d'
      using ms by (auto simp: marks_of_snoc stored_mark_def)
    have snap: "listSnapshot ?s2 = listSnapshot s"
      by (rule listSnapshot_cong_valid) (simp_all add: m2)
    from t1 t2 m0 m1 m2 snap show ?thesis by auto
  qed
qed

theorem toggle_twice_witness:
  "pk_unique (attendance_rows one_student) \<and> binary_marks one_student
   \<and> known_student one_student (SNum (of_int 1)) \<and> (0::nat) < length MEETING_DATES
   \<and> bind_param sqlite_fk (JStr ''1'') = Some (SNum (of_int 1)) \<and> \<not> falsy (JStr ''1'')
   \<and> bind_param sqlite_fk (JNum 0) = Some (SNum (of_nat 0))
   \<and> (\<exists>v1 v2 s1 s2 sent1 sent2.
           toggle sqlite_fk one_student [(0, OPEN)] (JStr ''1'') (JNum 0) = (Success v1, s1, sent1)
         \<and> toggle sqlite_fk s1 [(0, OPEN)] (JStr ''1'') (JNum 0) = (Success v2, s2, sent2)
         \<and> (v1 = 0 \<or> v1 = 1)
         \<and> v1 = 1 - stored_mark (attendance_rows one_student) 1 0
         \<and> stored_mark (attendance_rows s1) 1 0 = v1
         \<and> v2 = 1 - v1
         \<and> stored_mark (attendance_rows s2) 1 0 = v2
         \<and> stored_mark (attendance_rows s2) 1 0 = stored_mark (attendance_rows one_student) 1 0
         \<and> listSnapshot s2 = listSnapshot one_student)
   \<and> pk_unique (attendance_rows partly_seeded) \<and> binary_marks partly_seeded
   \<and> known_student partly_seeded (SNum (of_int 2))
   \<and> bind_param sqlite_fk (JNum 2) = Some (SNum (of_int 2)) \<and> \<not> falsy (JNum 2)
   \<and> (\<exists>v1 v2 s1 s2 sent1 sent2.
           toggle sqlite_fk partly_seeded [] (JNum 2) (JNum 0) = (Success v1, s1, sent1)
         \<and> toggle sqlite_fk s1 [] (JNum 2) (JNum 0) = (Success v2, s2, sent2)
         \<and> (v1 = 0 \<or> v1 = 1)
         \<and> v1 = 1 - stored_mark (attendance_rows partly_seeded) 2 0
         \<and> stored_mark (attendance_rows s1) 2 0 = v1
         \<and> v2 = 1 - v1
         \<and> stored_mark (attendance_rows s2) 2 0 = v2
         \<and> stored_mark (attendance_rows s2) 2 0 = stored_mark (attendance_rows partly_seeded) 2 0
         \<and> listSnapshot s2 = listSnapshot partly_seeded)"
proof -
  have a: "pk_unique (attendance_rows one_student)" "binary_marks one_student"
      "known_student one_student (SNum (of_int 1))"
    by (simp_all add: one_student_def binary_marks_def known_student_def)
  have b: "pk_unique (attendance_rows partly_seeded)" "binary_marks partly_seeded"
      "known_student partly_seeded (SNum (of_int 2))"
    by (simp_all add: partly_seeded_def binary_marks_def known_student_def key_matches_def sql_eq_def)
  have d: "(0::nat) < length MEETING_DATES" by (simp add: length_dates)
  have c: "bind_param sqlite_fk (JStr ''1'') = Some (SNum (of_int 1))" "\<not> falsy (JStr ''1'')"
      "bind_param sqlite_fk (JNum 0) = Some (SNum (of_nat 0))"
      "bind_param sqlite_fk (JNum 2) = Some (SNum (of_int 2))" "\<not> falsy (JNum 2)"
    by (simp_all add: sqlite_fk_def decimal_text_def)
  from toggle_twice [OF a d c(1,2,3), of "[(0, OPEN)]" "[(0, OPEN)]"]
       toggle_twice [OF b d c(4,5,3), of "[]" "[]"] a b c d
  show ?thesis by simp
qed

section \<open>Seeding, step by step\<close>

lemma list_ex_snoc: "list_ex P (xs @ [x]) = (list_ex P xs \<or> P x)"
  by (auto simp: list_ex_iff)

lemma seedDates_char:
  "seedDates c i ds s =
     (if distinct ds
         \<and> (\<forall>d \<in> set ds. \<not> list_ex (key_matches (SNum (of_int i)) (SNum (of_nat d))) (attendance_rows s))
         \<and> (ds \<noteq> [] \<and> foreign_keys c \<longrightarrow> known_student s (SNum (of_int i)))
      then Some (s\<lparr>attendance_rows := attendance_rows s @ seed_rows i ds\<rparr>)
      else None)"
proof (induction ds arbitrary: s)
  case Nil
  then show ?case by (simp add: seed_rows_def)
next
  case (Cons d ds)
  let ?s1 = "s\<lparr>attendance_rows := attendance_rows s
                @ [\<lparr>student_id = SNum (of_int i), date_index = SNum (of_nat d), status = 0\<rparr>]\<rparr>"
  have known1: "known_student ?s1 x = known_student s x" for x
    by (simp add: known_student_def)
  show ?case
  proof (cases "insertAttendance c s (SNum (of_int i)) (SNum (of_nat d)) 0")
    case None
    then show ?thesis
      by (auto simp: insertAttendance_def known_student_def split: if_splits)
  next
    case (Some s')
    then have s': "s' = ?s1"
      and ok: "\<not> list_ex (key_matches (SNum (of_int i)) (SNum (of_nat d))) (attendance_rows s)"
              "foreign_keys c \<longrightarrow> known_student s (SNum (of_int i))"
      by (auto simp: insertAttendance_def known_student_def split: if_splits)
    show ?thesis
      using Some ok
      by (auto simp: Cons.IH s' known1 list_ex_snoc key_matches_num [abs_def] seed_rows_def)
  qed
qed

lemma max_id_fold_ge: "m \<le> fold (\<lambda>r m. max (row_id r) m) rows m"
  by (induction rows arbitrary: m) (auto intro: order_trans [OF max.cobounded2])

lemma max_id_fold_mem:
  "r \<in> set rows \<Longrightarrow> row_id r \<le> fold (\<lambda>r m. max (row_id r) m) rows m"
proof (induction rows arbitrary: m)
  case Nil
  then show ?case by simp
next
  case (Cons x xs)
  show ?case
  proof (cases "r = x")
    case True
    have "row_id x \<le> max (row_id x) m" by simp
    also have "\<dots> \<le> fold (\<lambda>r m. max (row_id r) m) xs (max (row_id x) m)"
      by (rule max_id_fold_ge)
    finally show ?thesis using True by simp
  next
    case False
    with Cons show ?thesis by simp
  qed
qed

lemma row_id_less_next: "r \<in> set (students s) \<Longrightarrow> row_id r < next_id s"
  using max_id_fold_mem [of r "students s" 0] by (simp add: next_id_def max_id_def)

lemma seedNames_step:
  "seedNames c (nm # nms) s =
     (if \<forall>d < length MEETING_DATES.
            \<not> list_ex (key_matches (SNum (of_int (next_id s))) (SNum (of_nat d))) (attendance_rows s)
      then seedNames c nms (seed_one nm s) else None)"
  by (auto simp: insertStudent_def Let_def seedDates_char known_student_def next_id_def seed_one_def)

lemma marks_of_append: "marks_of (xs @ ys) i d = marks_of xs i d @ marks_of ys i d"
  by (simp add: marks_of_def)

lemma marks_of_seed_rows:
  "marks_of (seed_rows i ds) j d = (if j = i then seed_rows i (filter (\<lambda>x. x = d) ds) else [])"
  by (induction ds) (auto simp: marks_of_def seed_rows_def)

lemma length_seed_rows [simp]: "length (seed_rows i ds) = length ds"
  by (simp add: seed_rows_def)

lemma filter_eq_upt: "d < n \<Longrightarrow> filter (\<lambda>x. x = d) [0..<n] = [d]"
  by (induction n) auto

lemma students_seed_one [simp]:
  "students (seed_one nm s) = students s @ [\<lparr>row_id = next_id s, row_name = nm\<rparr>]"
  by (simp add: seed_one_def)

lemma rows_seed_one [simp]:
  "attendance_rows (seed_one nm s)
     = attendance_rows s @ seed_rows (next_id s) [0..<length MEETING_DATES]"
  by (simp add: seed_one_def)

lemma every_pair_marked_seed_one:
  assumes "every_pair_marked s"
    and free: "\<forall>d < length MEETING_DATES.
            \<not> list_ex (key_matches (SNum (of_int (next_id s))) (SNum (of_nat d))) (attendance_rows s)"
  shows "every_pair_marked (seed_one nm s)"
proof -
  have old: "length (marks_of (attendance_rows (seed_one nm s)) (row_id r) d) = 1"
    if "r \<in> set (students s)" "d < length MEETING_DATES" for r d
  proof -
    have "row_id r \<noteq> next_id s" using row_id_less_next [OF that(1)] by simp
    then show ?thesis
      using assms(1) that by (simp add: marks_of_append marks_of_seed_rows every_pair_marked_iff)
  qed
  have new: "length (marks_of (attendance_rows (seed_one nm s)) (next_id s) d) = 1"
    if "d < length MEETING_DATES" for d
  proof -
    have "marks_of (attendance_rows s) (next_id s) d = []"
      using free that by (simp add: marks_of_key list_ex_iff filter_empty_conv)
    then show ?thesis
      using that by (simp add: marks_of_append marks_of_seed_rows filter_eq_upt)
  qed
  show ?thesis
    using old new by (auto simp: every_pair_marked_iff)
qed

lemma valid_index_nat: "d < length MEETING_DATES \<Longrightarrow> valid_index (SNum (of_nat d))"
  by (simp add: valid_index_def)

lemma no_stray_index_seed_one:
  "no_stray_index s \<Longrightarrow> no_stray_index (seed_one nm s)"
  by (auto simp: no_stray_index_iff seed_rows_def valid_index_nat)

lemma seedNames_fold:
  "seedNames c nms s = Some s' \<Longrightarrow> s' = fold seed_one nms s"
  by (induction nms arbitrary: s) (auto simp: seedNames_step simp del: seedNames.simps(2) split: if_splits)

lemma seedNames_every_pair_marked:
  "seedNames c nms s = Some s' \<Longrightarrow> every_pair_marked s \<Longrightarrow> every_pair_marked s'"
proof (induction nms arbitrary: s)
  case Nil
  then show ?case by simp
next
  case (Cons nm nms)
  from Cons.prems(1) have
    free: "\<forall>d < length MEETING_DATES.
            \<not> list_ex (key_matches (SNum (of_int (next_id s))) (SNum (of_nat d))) (attendance_rows s)"
    and rest: "seedNames c nms (seed_one nm s) = Some s'"
    by (auto simp: seedNames_step simp del: seedNames.simps(2) split: if_splits)
  from Cons.prems(2) free have "every_pair_marked (seed_one nm s)"
    by (rule every_pair_marked_seed_one)
  with rest show ?case by (rule Cons.IH)
qed

lemma seedNames_no_stray_index:
  "seedNames c nms s = Some s' \<Longrightarrow> no_stray_index s \<Longrightarrow> no_stray_index s'"
proof (induction nms arbitrary: s)
  case Nil
  then show ?case by simp
next
  case (Cons nm nms)
  from Cons.prems(1) have rest: "seedNames c nms (seed_one nm s) = Some s'"
    by (auto simp: seedNames_step simp del: seedNames.simps(2) split: if_splits)
  from Cons.prems(2) have "no_stray_index (seed_one nm s)"
    by (rule no_stray_index_seed_one)
  with rest show ?case by (rule Cons.IH)
qed

lemma max_id_snoc: "max_id (rows @ [r]) = max (row_id r) (max_id rows)"
  by (simp add: max_id_def)

lemma max_id_less_next: "max_id (students s) < next_id s"
  by (simp add: next_id_def)

lemma next_id_seed_one: "next_id (seed_one nm s) = next_id s + 1"
  using max_id_less_next [of s] by (simp add: next_id_def seed_one_def max_id_snoc)

lemma ids_given_seed_one: "ids_given s \<Longrightarrow> ids_given (seed_one nm s)"
  by (fastforce simp: ids_given_def next_id_seed_one seed_rows_def)

lemma ids_given_free:
  "ids_given s \<Longrightarrow>
     \<not> list_ex (key_matches (SNum (of_int (next_id s))) (SNum (of_nat d))) (attendance_rows s)"
  by (auto simp: ids_given_def list_ex_iff key_matches_num)

lemma seedNames_succeeds:
  "ids_given s \<Longrightarrow> seedNames c nms s = Some (fold seed_one nms s)"
proof (induction nms arbitrary: s)
  case Nil
  then show ?case by simp
next
  case (Cons nm nms)
  from Cons.prems have "ids_given (seed_one nm s)" by (rule ids_given_seed_one)
  then have "seedNames c nms (seed_one nm s) = Some (fold seed_one nms (seed_one nm s))"
    by (rule Cons.IH)
  with Cons.prems show ?case
    by (simp add: seedNames_step ids_given_free del: seedNames.simps(2))
qed

lemma fold_seed_one_shape:
  "\<exists>news. students (fold seed_one nms s) = students s @ news
        \<and> map row_name news = nms
        \<and> attendance_rows (fold seed_one nms s)
            = attendance_rows s
              @ concat (map (\<lambda>r. seed_rows (row_id r) [0..<length MEETING_DATES]) news)"
proof (induction nms arbitrary: s)
  case Nil
  then show ?case by simp
next
  case (Cons nm nms)
  from Cons.IH [of "seed_one nm s"] obtain news where
    "students (fold seed_one nms (seed_one nm s)) = students (seed_one nm s) @ news"
    "map row_name news = nms"
    "attendance_rows (fold seed_one nms (seed_one nm s))
       = attendance_rows (seed_one nm s)
         @ concat (map (\<lambda>r. seed_rows (row_id r) [0..<length MEETING_DATES]) news)"
    by blast
  then show ?case
    by (intro exI [of _ "\<lparr>row_id = next_id s, row_name = nm\<rparr> # news"]) simp
qed

lemma fold_seed_one_distinct:
  "distinct (map row_id (students s)) \<Longrightarrow> distinct (map row_id (students (fold seed_one nms s)))"
proof (induction nms arbitrary: s)
  case Nil
  then show ?case by simp
next
  case (Cons nm nms)
  have "next_id s \<notin> row_id ` set (students s)"
    using row_id_less_next [of _ s] by fastforce
  with Cons.prems have "distinct (map row_id (students (seed_one nm s)))" by simp
  then show ?case using Cons.IH by simp
qed

section \<open>What a toggle does to the store\<close>

lemma toggle_store_cases:
  "fst (snd (toggle c s clients studentId dateIndex)) = s
   \<or> (\<exists>sid didx v. bind_args c studentId dateIndex = Some (sid, didx)
         \<and> list_ex (key_matches sid didx) (attendance_rows s)
         \<and> fst (snd (toggle c s clients studentId dateIndex)) = updateStatus s v sid didx)
   \<or> (\<exists>sid didx. bind_args c studentId dateIndex = Some (sid, didx)
         \<and> \<not> list_ex (key_matches sid didx) (attendance_rows s)
         \<and> fst (snd (toggle c s clients studentId dateIndex))
             = s\<lparr>attendance_rows := attendance_rows s
                    @ [\<lparr>student_id = sid, date_index = didx, status = 1\<rparr>]\<rparr>)"
proof (cases "falsy studentId \<or> dateIndex = JUndefined")
  case True
  then show ?thesis by (simp add: toggle_def)
next
  case False
  show ?thesis
  proof (cases "bind_args c studentId dateIndex")
    case None
    with False show ?thesis by (simp add: toggle_def toggle_db_def)
  next
    case (Some key)
    obtain sid didx where key: "key = (sid, didx)" by (cases key)
    from False Some key have tb: "toggle c s clients studentId dateIndex =
       (case selectStatus s sid didx of
          Some cur \<Rightarrow>
            (Success (if cur = 1 then 0 else 1),
             updateStatus s (if cur = 1 then 0 else 1) sid didx,
             broadcast clients (broadcastData studentId dateIndex (if cur = 1 then 0 else 1)))
        | None \<Rightarrow>
            (case insertAttendance c s sid didx 1 of
               Some s' \<Rightarrow> (Success 1, s', broadcast clients (broadcastData studentId dateIndex 1))
             | None \<Rightarrow> (DatabaseError500, s, [])))"
      by (simp add: toggle_bound_args)
    show ?thesis
    proof (cases "selectStatus s sid didx")
      case None
      then have "\<not> list_ex (key_matches sid didx) (attendance_rows s)"
        by (simp add: selectStatus_None)
      with None Some key show ?thesis
        by (auto simp: tb insertAttendance_def)
    next
      case cur: (Some cur)
      then have "list_ex (key_matches sid didx) (attendance_rows s)"
        using selectStatus_None [of s sid didx] by simp
      with cur Some key show ?thesis
        by (auto simp: tb)
    qed
  qed
qed

lemma students_toggle [simp]:
  "students (fst (snd (toggle c s clients studentId dateIndex))) = students s"
  using toggle_store_cases [of c s clients studentId dateIndex]
  by (auto simp: updateStatus_def)

lemma every_pair_marked_update:
  "every_pair_marked (updateStatus s v sid didx) = every_pair_marked s"
  by (simp add: every_pair_marked_iff marks_of_update) (simp add: updateStatus_def)

lemma every_pair_marked_insert:
  assumes "every_pair_marked s" "\<not> list_ex (key_matches sid didx) (attendance_rows s)"
  shows "every_pair_marked (s\<lparr>attendance_rows := attendance_rows s
                                @ [\<lparr>student_id = sid, date_index = didx, status = v\<rparr>]\<rparr>)"
proof -
  have "\<not> (sid = SNum (of_int (row_id r)) \<and> didx = SNum (of_nat d))"
    if "r \<in> set (students s)" "d < length MEETING_DATES" for r d
  proof
    assume key: "sid = SNum (of_int (row_id r)) \<and> didx = SNum (of_nat d)"
    from assms(1) that have "length (marks_of (attendance_rows s) (row_id r) d) = 1"
      by (simp add: every_pair_marked_iff)
    then obtain a where "a \<in> set (marks_of (attendance_rows s) (row_id r) d)"
      by (cases "marks_of (attendance_rows s) (row_id r) d") auto
    then have "a \<in> set (attendance_rows s)" "key_matches sid didx a"
      using key by (auto simp: marks_of_key)
    with assms(2) show False by (auto simp: list_ex_iff)
  qed
  with assms(1) show ?thesis
    by (auto simp: every_pair_marked_iff marks_of_snoc)
qed

lemma no_stray_index_map: "no_stray_index s = list_all valid_index (map date_index (attendance_rows s))"
  by (simp add: no_stray_index_iff list_all_iff)

lemma date_index_update:
  "map date_index (attendance_rows (updateStatus s v sid didx)) = map date_index (attendance_rows s)"
  by (simp add: updateStatus_def comp_def if_distrib cong: if_cong)

lemma no_stray_index_update:
  "no_stray_index (updateStatus s v sid didx) = no_stray_index s"
  by (simp only: no_stray_index_map date_index_update)

lemma no_stray_index_insert:
  "no_stray_index s \<Longrightarrow> valid_index didx
     \<Longrightarrow> no_stray_index (s\<lparr>attendance_rows := attendance_rows s
                                @ [\<lparr>student_id = sid, date_index = didx, status = v\<rparr>]\<rparr>)"
  by (simp add: no_stray_index_iff)

lemma toggle_every_pair_marked:
  "every_pair_marked s \<Longrightarrow> every_pair_marked (fst (snd (toggle c s clients studentId dateIndex)))"
  using toggle_store_cases [of c s clients studentId dateIndex]
  by (auto simp: every_pair_marked_update every_pair_marked_insert)

lemma toggle_no_stray_index:
  "no_stray_index s
     \<Longrightarrow> \<forall>sid didx. bind_args c studentId dateIndex = Some (sid, didx) \<longrightarrow> valid_index didx
     \<Longrightarrow> no_stray_index (fst (snd (toggle c s clients studentId dateIndex)))"
  using toggle_store_cases [of c s clients studentId dateIndex]
  by (auto simp: no_stray_index_update no_stray_index_insert)

lemma stored_mark_update_invalid:
  assumes "\<not> valid_index didx" "d < length MEETING_DATES"
  shows "stored_mark (attendance_rows (updateStatus s v sid didx)) j d
           = stored_mark (attendance_rows s) j d"
proof -
  have "\<not> key_matches sid didx b" if "b \<in> set (marks_of (attendance_rows s) j d)" for b
  proof
    assume "key_matches sid didx b"
    then have "date_index b = didx" by (simp add: key_matches_fields)
    moreover from that have "date_index b = SNum (of_nat d)" by (simp add: marks_of_def)
    ultimately show False using assms valid_index_nat by auto
  qed
  then have "map (\<lambda>b. if key_matches sid didx b then b\<lparr>status := v\<rparr> else b)
               (marks_of (attendance_rows s) j d) = marks_of (attendance_rows s) j d"
    by (simp add: map_idI)
  then show ?thesis by (simp add: stored_mark_def marks_of_update)
qed

lemma stored_mark_insert_invalid:
  assumes "\<not> valid_index didx" "d < length MEETING_DATES"
  shows "stored_mark (rows @ [\<lparr>student_id = sid, date_index = didx, status = v\<rparr>]) j d
           = stored_mark rows j d"
proof -
  have "didx \<noteq> SNum (of_nat d)" using assms valid_index_nat by auto
  then show ?thesis by (simp add: stored_mark_def marks_of_snoc)
qed

lemma toggle_invalid_index_snapshot:
  assumes "\<forall>sid didx. bind_args c studentId dateIndex = Some (sid, didx) \<longrightarrow> \<not> valid_index didx"
  shows "listSnapshot (fst (snd (toggle c s clients studentId dateIndex))) = listSnapshot s"
proof (rule listSnapshot_cong_valid)
  show "students (fst (snd (toggle c s clients studentId dateIndex))) = students s" by simp
next
  fix j d
  assume "d < length MEETING_DATES"
  then show "stored_mark (attendance_rows (fst (snd (toggle c s clients studentId dateIndex)))) j d
               = stored_mark (attendance_rows s) j d"
    using toggle_store_cases [of c s clients studentId dateIndex] assms
    by (auto simp: stored_mark_update_invalid stored_mark_insert_invalid)
qed

lemma toggle_unknown_student:
  assumes fk: "foreign_keys c" and refs: "references_kept s"
    and unknown: "\<forall>sid didx. bind_args c studentId dateIndex = Some (sid, didx)
                    \<longrightarrow> sid \<noteq> SNull \<and> \<not> known_student s sid"
  shows "fst (toggle c s clients studentId dateIndex) \<noteq> Success v
         \<and> snd (toggle c s clients studentId dateIndex) = (s, [])"
proof (cases "falsy studentId \<or> dateIndex = JUndefined")
  case True
  then show ?thesis by (simp add: toggle_def)
next
  case False
  show ?thesis
  proof (cases "bind_args c studentId dateIndex")
    case None
    with False show ?thesis by (simp add: toggle_def toggle_db_def)
  next
    case (Some key)
    obtain sid didx where key: "key = (sid, didx)" by (cases key)
    with Some unknown have notnull: "sid \<noteq> SNull" and nk: "\<not> known_student s sid" by auto
    have nomatch: "\<not> list_ex (key_matches sid didx) (attendance_rows s)"
    proof
      assume "list_ex (key_matches sid didx) (attendance_rows s)"
      then obtain a where a: "a \<in> set (attendance_rows s)" "key_matches sid didx a"
        by (auto simp: list_ex_iff)
      then have "student_id a = sid" by (simp add: key_matches_fields)
      with a(1) refs notnull have "known_student s sid" by (auto simp: references_kept_def)
      with nk show False by simp
    qed
    then have "selectStatus s sid didx = None" by (simp add: selectStatus_None)
    moreover have "insertAttendance c s sid didx 1 = None"
      using nomatch fk notnull nk by (simp add: insertAttendance_def known_student_def)
    ultimately show ?thesis
      using False Some key by (simp add: toggle_bound_args)
  qed
qed

section \<open>Seeding once, and the invariant of the marks\<close>

lemma seed_empty:
  "seed c empty_store = (Seeded, fold seed_one INITIAL_NAMES empty_store)"
proof -
  have "ids_given empty_store" by (simp add: ids_given_def empty_store_def)
  then have "seedNames c INITIAL_NAMES empty_store = Some (fold seed_one INITIAL_NAMES empty_store)"
    by (rule seedNames_succeeds)
  then show ?thesis by (simp add: seed_def empty_store_def)
qed

lemma seed_every_pair_marked: "every_pair_marked s \<Longrightarrow> every_pair_marked (snd (seed c s))"
  by (auto simp: seed_def seedNames_every_pair_marked split: option.splits)

lemma seed_no_stray_index: "no_stray_index s \<Longrightarrow> no_stray_index (snd (seed c s))"
  by (auto simp: seed_def seedNames_no_stray_index split: option.splits)

lemma seed_Seeded_shape:
  assumes "fst (seed c s) = Seeded"
  shows "students s = []
        \<and> map row_name (students (snd (seed c s))) = INITIAL_NAMES
        \<and> attendance_rows (snd (seed c s))
            = attendance_rows s
              @ concat (map (\<lambda>r. seed_rows (row_id r) [0..<length MEETING_DATES])
                          (students (snd (seed c s))))"
proof -
  from assms obtain s' where e: "students s = []"
      and s': "seedNames c INITIAL_NAMES s = Some s'" and r: "snd (seed c s) = s'"
    by (auto simp: seed_def split: if_splits option.splits)
  from s' have "s' = fold seed_one INITIAL_NAMES s" by (rule seedNames_fold)
  with fold_seed_one_shape [of INITIAL_NAMES s] e r show ?thesis by auto
qed

text \<open>
  C6. Seeding writes only when \<^verbatim>\<open>students\<close> is empty, and all or nothing: a store with
  a participant is left as it is; a seeding that does not complete leaves the store as it
  was; one that completes has added one participant for each seed name, in order, and for
  each of them N rows, one for each date index, all absent. From the empty store it
  completes, with distinct ids, and seeding again changes nothing.
\<close>

theorem seed_once:
  "(students s \<noteq> [] \<longrightarrow> seed c s = (NotEmpty, s))
   \<and> (fst (seed c s) \<noteq> Seeded \<longrightarrow> snd (seed c s) = s)
   \<and> (fst (seed c s) = Seeded \<longrightarrow>
        students s = []
        \<and> map row_name (students (snd (seed c s))) = INITIAL_NAMES
        \<and> attendance_rows (snd (seed c s))
            = attendance_rows s
              @ concat (map (\<lambda>r. seed_rows (row_id r) [0..<length MEETING_DATES])
                          (students (snd (seed c s)))))
   \<and> fst (seed c empty_store) = Seeded
   \<and> distinct (map row_id (students (snd (seed c empty_store))))
   \<and> seed c (snd (seed c empty_store)) = (NotEmpty, snd (seed c empty_store))"
proof -
  have a: "students s \<noteq> [] \<longrightarrow> seed c s = (NotEmpty, s)"
    by (simp add: seed_def)
  have b: "fst (seed c s) \<noteq> Seeded \<longrightarrow> snd (seed c s) = s"
    by (simp add: seed_def split: option.splits)
  have d: "fst (seed c empty_store) = Seeded" by (simp add: seed_empty)
  have "distinct (map row_id (students empty_store))" by (simp add: empty_store_def)
  then have e: "distinct (map row_id (students (snd (seed c empty_store))))"
    by (simp add: seed_empty fold_seed_one_distinct)
  have "map row_name (students (snd (seed c empty_store))) = INITIAL_NAMES"
    using seed_Seeded_shape [OF d] by simp
  then have "students (snd (seed c empty_store)) \<noteq> []"
    by (auto simp: INITIAL_NAMES_def)
  then have f: "seed c (snd (seed c empty_store)) = (NotEmpty, snd (seed c empty_store))"
    by (simp add: seed_def)
  from a b d e f seed_Seeded_shape [of c s] show ?thesis by blast
qed

lemma distinct_names: "distinct INITIAL_NAMES" and length_names: "length INITIAL_NAMES = 20"
  by (simp_all add: INITIAL_NAMES_def)

theorem seed_once_witness:
  "distinct INITIAL_NAMES \<and> length INITIAL_NAMES = 20
   \<and> fst (seed sqlite_fk empty_store) = Seeded
   \<and> students empty_store = []
   \<and> map row_name (students seeded) = INITIAL_NAMES
   \<and> attendance_rows seeded
       = concat (map (\<lambda>r. seed_rows (row_id r) [0..<length MEETING_DATES]) (students seeded))
   \<and> seed sqlite_fk seeded = (NotEmpty, seeded)
   \<and> students one_student \<noteq> []
   \<and> seed sqlite_fk one_student = (NotEmpty, one_student)"
  using seed_once [of empty_store sqlite_fk] seed_once [of one_student sqlite_fk]
  by (simp add: seeded_def distinct_names length_names) (simp add: empty_store_def one_student_def)

text \<open>
  Seeding the empty store gives every (participant, date index) pair with an index from 0
  to N - 1 exactly one mark, and no mark any other index. Seeding and every toggle keep
  the first half; seeding keeps the second half, and so does a toggle whose key has an
  index from 0 to N - 1 for its date.
\<close>

lemma marks_kept:
  "fst (seed c empty_store) = Seeded
   \<and> every_pair_marked (snd (seed c empty_store))
   \<and> no_stray_index (snd (seed c empty_store))
   \<and> (every_pair_marked s \<longrightarrow> every_pair_marked (snd (seed c s)))
   \<and> (no_stray_index s \<longrightarrow> no_stray_index (snd (seed c s)))
   \<and> (every_pair_marked s
        \<longrightarrow> every_pair_marked (fst (snd (toggle c s clients studentId dateIndex))))
   \<and> (no_stray_index s
        \<and> (\<forall>sid didx. bind_args c studentId dateIndex = Some (sid, didx) \<longrightarrow> valid_index didx)
        \<longrightarrow> no_stray_index (fst (snd (toggle c s clients studentId dateIndex))))"
proof -
  have "every_pair_marked empty_store" "no_stray_index empty_store"
    by (simp_all add: every_pair_marked_iff no_stray_index_iff empty_store_def)
  then have "every_pair_marked (snd (seed c empty_store))" "no_stray_index (snd (seed c empty_store))"
    by (simp_all only: seed_every_pair_marked seed_no_stray_index)
  then show ?thesis
    using seed_every_pair_marked [of s c] seed_no_stray_index [of s c]
      toggle_every_pair_marked [of s c clients studentId dateIndex]
      toggle_no_stray_index [of s c studentId dateIndex clients]
    by (simp add: seed_empty)
qed

lemma seeded_facts:
  "every_pair_marked seeded" "no_stray_index seeded"
proof -
  have "every_pair_marked empty_store" "no_stray_index empty_store"
    by (simp_all add: every_pair_marked_iff no_stray_index_iff empty_store_def)
  then show "every_pair_marked seeded" "no_stray_index seeded"
    by (simp_all only: seeded_def seed_every_pair_marked seed_no_stray_index)
qed

section \<open>What seeding and toggles keep of the schema\<close>

text \<open>
  The primary key, the binary marks and, where SQLite enforces it, the foreign key hold in
  the empty store and are kept by seeding and by every toggle: they hold in every store
  that the program reaches from the empty one.
\<close>

lemma list_ex_update:
  "list_ex (key_matches k1 k2)
     (map (\<lambda>b. if key_matches sid didx b then b\<lparr>status := v\<rparr> else b) rows)
     = list_ex (key_matches k1 k2) rows"
  by (induction rows) simp_all

lemma pk_unique_update:
  "pk_unique (attendance_rows (updateStatus s v sid didx)) = pk_unique (attendance_rows s)"
proof -
  have "pk_unique (map (\<lambda>b. if key_matches sid didx b then b\<lparr>status := v\<rparr> else b) rows)
          = pk_unique rows" for rows
    by (induction rows) (simp_all add: list_ex_update)
  then show ?thesis by (simp add: updateStatus_def)
qed

lemma pk_unique_snoc:
  assumes "pk_unique rows" "\<not> list_ex (key_matches sid didx) rows"
  shows "pk_unique (rows @ [\<lparr>student_id = sid, date_index = didx, status = v\<rparr>])"
  using assms
proof (induction rows)
  case Nil
  then show ?case by simp
next
  case (Cons a rows)
  have "\<not> key_matches (student_id a) (date_index a)
            \<lparr>student_id = sid, date_index = didx, status = v\<rparr>"
    using Cons.prems(2) by (auto simp: key_matches_def sql_eq_def)
  with Cons show ?case by (simp add: list_ex_snoc)
qed

lemma insertAttendance_Some:
  assumes "insertAttendance c s sid didx v = Some s'"
  shows "s' = s\<lparr>attendance_rows := attendance_rows s
                  @ [\<lparr>student_id = sid, date_index = didx, status = v\<rparr>]\<rparr>"
    and "\<not> list_ex (key_matches sid didx) (attendance_rows s)"
    and "foreign_keys c \<longrightarrow> sid = SNull \<or> known_student s sid"
  using assms by (auto simp: insertAttendance_def known_student_def split: if_splits)

lemma toggle_outcomes:
  "fst (snd (toggle c s clients studentId dateIndex)) = s
   \<or> (\<exists>sid didx v. (v = 0 \<or> v = 1)
         \<and> fst (snd (toggle c s clients studentId dateIndex)) = updateStatus s v sid didx)
   \<or> (\<exists>sid didx. insertAttendance c s sid didx 1
                     = Some (fst (snd (toggle c s clients studentId dateIndex))))"
  by (auto simp: toggle_def toggle_db_def Let_def split: option.splits prod.splits)

lemma toggle_keeps_keys:
  assumes "pk_unique (attendance_rows s)"
  shows "pk_unique (attendance_rows (fst (snd (toggle c s clients studentId dateIndex))))"
proof -
  have ins: "pk_unique (attendance_rows s')"
    if "insertAttendance c s sid didx 1 = Some s'" for sid didx s'
    using insertAttendance_Some(1,2) [OF that] assms by (simp add: pk_unique_snoc)
  from toggle_outcomes [of c s clients studentId dateIndex] assms ins
  show ?thesis by (auto simp: pk_unique_update)
qed

lemma binary_marks_update:
  "binary_marks s \<Longrightarrow> v = 0 \<or> v = 1 \<Longrightarrow> binary_marks (updateStatus s v sid didx)"
  by (auto simp: binary_marks_def updateStatus_def)

lemma toggle_keeps_binary:
  assumes "binary_marks s"
  shows "binary_marks (fst (snd (toggle c s clients studentId dateIndex)))"
proof -
  have ins: "binary_marks s'"
    if "insertAttendance c s sid didx 1 = Some s'" for sid didx s'
    using insertAttendance_Some(1) [OF that] assms by (auto simp: binary_marks_def)
  from toggle_outcomes [of c s clients studentId dateIndex] assms ins
  show ?thesis by (auto simp: binary_marks_update)
qed

lemma references_kept_update:
  "references_kept (updateStatus s v sid didx) = references_kept s"
proof -
  have "map student_id (attendance_rows (updateStatus s v sid didx))
          = map student_id (attendance_rows s)"
    by (simp add: updateStatus_def comp_def if_distrib cong: if_cong)
  moreover have "known_student (updateStatus s v sid didx) x = known_student s x" for x
    by (simp add: known_student_def updateStatus_def)
  moreover have "references_kept t
      = list_all (\<lambda>x. x = SNull \<or> known_student t x) (map student_id (attendance_rows t))" for t
    by (simp add: references_kept_def list_all_iff)
  ultimately show ?thesis by simp
qed

lemma toggle_keeps_references:
  assumes "foreign_keys c" "references_kept s"
  shows "references_kept (fst (snd (toggle c s clients studentId dateIndex)))"
proof -
  have ins: "references_kept s'" if "insertAttendance c s sid didx 1 = Some s'" for sid didx s'
    using insertAttendance_Some [OF that] assms
    by (auto simp: references_kept_def known_student_def)
  from toggle_outcomes [of c s clients studentId dateIndex] assms(2) ins
  show ?thesis by (auto simp: references_kept_update)
qed

lemma seedDates_keeps_keys:
  "seedDates c i ds s = Some s' \<Longrightarrow> pk_unique (attendance_rows s)
     \<Longrightarrow> pk_unique (attendance_rows s')"
proof (induction ds arbitrary: s)
  case Nil
  then show ?case by simp
next
  case (Cons d ds)
  from Cons.prems(1) obtain s1 where
    s1: "insertAttendance c s (SNum (of_int i)) (SNum (of_nat d)) 0 = Some s1"
    and rest: "seedDates c i ds s1 = Some s'"
    by (auto split: option.splits)
  from insertAttendance_Some(1,2) [OF s1] Cons.prems(2)
  have "pk_unique (attendance_rows s1)" by (simp add: pk_unique_snoc)
  with rest show ?case by (rule Cons.IH)
qed

lemma seedNames_keeps_keys:
  "seedNames c nms s = Some s' \<Longrightarrow> pk_unique (attendance_rows s)
     \<Longrightarrow> pk_unique (attendance_rows s')"
proof (induction nms arbitrary: s)
  case Nil
  then show ?case by simp
next
  case (Cons nm nms)
  from Cons.prems(1) obtain s2 where
    s2: "seedDates c (fst (insertStudent s nm)) [0..<length MEETING_DATES] (snd (insertStudent s nm))
           = Some s2"
    and rest: "seedNames c nms s2 = Some s'"
    by (auto simp: Let_def split: option.splits prod.splits)
  have "attendance_rows (snd (insertStudent s nm)) = attendance_rows s"
    by (simp add: insertStudent_def Let_def)
  with seedDates_keeps_keys [OF s2] Cons.prems(2) have "pk_unique (attendance_rows s2)" by simp
  with rest show ?case by (rule Cons.IH)
qed

lemma seed_keeps_keys:
  "pk_unique (attendance_rows s) \<Longrightarrow> pk_unique (attendance_rows (snd (seed c s)))"
  by (auto simp: seed_def seedNames_keeps_keys split: option.splits)

lemma fold_seed_one_binary:
  "binary_marks s \<Longrightarrow> binary_marks (fold seed_one nms s)"
proof (induction nms arbitrary: s)
  case Nil
  then show ?case by simp
next
  case (Cons nm nms)
  have "binary_marks (seed_one nm s)"
    using Cons.prems by (auto simp: binary_marks_def seed_rows_def)
  then show ?case using Cons.IH by simp
qed

lemma fold_seed_one_references:
  "references_kept s \<Longrightarrow> references_kept (fold seed_one nms s)"
proof (induction nms arbitrary: s)
  case Nil
  then show ?case by simp
next
  case (Cons nm nms)
  have "references_kept (seed_one nm s)"
    using Cons.prems by (auto simp: references_kept_def known_student_def seed_rows_def)
  then show ?case using Cons.IH by simp
qed

lemma seed_keeps_schema:
  "binary_marks s \<Longrightarrow> binary_marks (snd (seed c s))"
  "references_kept s \<Longrightarrow> references_kept (snd (seed c s))"
  by (auto simp: seed_def fold_seed_one_binary fold_seed_one_references
           dest!: seedNames_fold split: option.splits)

lemma empty_store_schema:
  "pk_unique (attendance_rows empty_store)" "binary_marks empty_store" "references_kept empty_store"
  by (simp_all add: empty_store_def binary_marks_def references_kept_def)

section \<open>Requests that a toggle refuses, and those it does not\<close>

lemma no_match_invalid:
  assumes "no_stray_index s" "\<not> valid_index didx"
  shows "\<not> list_ex (key_matches sid didx) (attendance_rows s)"
proof
  assume "list_ex (key_matches sid didx) (attendance_rows s)"
  then obtain a where "a \<in> set (attendance_rows s)" "key_matches sid didx a"
    by (auto simp: list_ex_iff)
  then have "valid_index didx"
    using assms(1) key_matches_fields [of sid didx a] by (auto simp: no_stray_index_iff)
  with assms(2) show False by simp
qed

lemma seeded_first: "known_student seeded (SNum 1)"
proof -
  obtain nm nms where names: "INITIAL_NAMES = nm # nms"
    by (simp add: INITIAL_NAMES_def)
  have first: "next_id empty_store = 1"
    by (simp add: next_id_def empty_store_def max_id_def)
  from fold_seed_one_shape [of nms "seed_one nm empty_store"] obtain news where
    "students (fold seed_one nms (seed_one nm empty_store))
       = students (seed_one nm empty_store) @ news"
    by blast
  then have "students seeded = \<lparr>row_id = 1, row_name = nm\<rparr> # news"
    by (simp add: seeded_def seed_empty names first) (simp add: empty_store_def)
  then show ?thesis by (simp add: known_student_def)
qed

lemma seeded_toggle_stray:
  assumes "\<not> valid_index (SNum q)"
  shows "toggle sqlite_fk seeded clients (JNum 1) (JNum q)
     = (Success 1,
        seeded\<lparr>attendance_rows := attendance_rows seeded
                  @ [\<lparr>student_id = SNum 1, date_index = SNum q, status = 1\<rparr>]\<rparr>,
        broadcast clients (broadcastData (JNum 1) (JNum q) 1))"
proof -
  have nomatch: "\<not> list_ex (key_matches (SNum 1) (SNum q)) (attendance_rows seeded)"
    using seeded_facts(2) assms by (rule no_match_invalid)
  then have "selectStatus seeded (SNum 1) (SNum q) = None" by (simp add: selectStatus_None)
  moreover have "insertAttendance sqlite_fk seeded (SNum 1) (SNum q) 1
      = Some (seeded\<lparr>attendance_rows := attendance_rows seeded
                  @ [\<lparr>student_id = SNum 1, date_index = SNum q, status = 1\<rparr>]\<rparr>)"
    using nomatch seeded_first by (simp add: insert_fresh)
  ultimately show ?thesis
    by (simp add: toggle_bound [of "JNum 1" "JNum q" sqlite_fk "SNum 1" "SNum q"])
qed

lemma invalid_10: "\<not> valid_index (SNum 10)" and invalid_minus_1: "\<not> valid_index (SNum (- 1))"
  by (simp_all add: valid_index_def length_dates)

text \<open>
  C1. The code at the failing input. On the store that seeding leaves, where participant 1
  exists and the dates are ten, the requests for participant 1 with \<open>dateIndex\<close> 10 and with
  \<open>dateIndex\<close> - 1 are not refused: each is answered with success and \<open>newStatus\<close> 1, a row
  of marks is added for that index, and the event is sent to the open connection.
\<close>

theorem toggle_out_of_range_accepted:
  "known_student seeded (SNum 1)
   \<and> \<not> valid_index (SNum 10) \<and> \<not> valid_index (SNum (- 1))
   \<and> toggle sqlite_fk seeded [(0, OPEN)] (JNum 1) (JNum 10)
     = (Success 1,
        seeded\<lparr>attendance_rows := attendance_rows seeded
                  @ [\<lparr>student_id = SNum 1, date_index = SNum 10, status = 1\<rparr>]\<rparr>,
        [(0, \<lparr>msg_type = ''UPDATE_ATTENDANCE'', payload_studentId = JNum 1,
              payload_dateIndex = JNum 10, payload_status = 1\<rparr>)])
   \<and> toggle sqlite_fk seeded [(0, OPEN)] (JNum 1) (JNum (- 1))
     = (Success 1,
        seeded\<lparr>attendance_rows := attendance_rows seeded
                  @ [\<lparr>student_id = SNum 1, date_index = SNum (- 1), status = 1\<rparr>]\<rparr>,
        [(0, \<lparr>msg_type = ''UPDATE_ATTENDANCE'', payload_studentId = JNum 1,
              payload_dateIndex = JNum (- 1), payload_status = 1\<rparr>)])"
  using seeded_first invalid_10 invalid_minus_1
    seeded_toggle_stray [OF invalid_10] seeded_toggle_stray [OF invalid_minus_1]
  by (simp add: broadcast_def broadcastData_def)

text \<open>
  C2. The code at the failing input. The store that seeding leaves has exactly one mark
  for every pair of a participant and a date, and no mark for another index. The toggle of
  participant 1 at \<open>dateIndex\<close> 10 succeeds on it, and the store it leaves holds the row
  (1, 10, 1): a mark for an index that is not one of the ten dates.
\<close>

theorem toggle_leaves_stray_index:
  "every_pair_marked seeded \<and> no_stray_index seeded
   \<and> known_student seeded (SNum 1)
   \<and> fst (toggle sqlite_fk seeded [] (JNum 1) (JNum 10)) = Success 1
   \<and> \<lparr>student_id = SNum 1, date_index = SNum 10, status = 1\<rparr>
        \<in> set (attendance_rows (fst (snd (toggle sqlite_fk seeded [] (JNum 1) (JNum 10)))))
   \<and> \<not> valid_index (SNum 10)
   \<and> \<not> no_stray_index (fst (snd (toggle sqlite_fk seeded [] (JNum 1) (JNum 10))))"
  using seeded_facts seeded_first invalid_10
  by (simp add: seeded_toggle_stray [OF invalid_10] no_stray_index_iff)

section \<open>The order of the snapshot\<close>












section \<open>The view on a realtime event\<close>

lemma array_set_int_nth:
  "j < length arr \<Longrightarrow>
     array_set arr (of_int di) v ! j = (if int j = di then v else arr ! j)"
  by (auto simp: array_set_def nth_list_update)

text \<open>
  C8. On an event for participant \<open>i\<close> and a date index, the view has the same
  participants in the same order with the same names, and every mark of every participant
  is as before, whatever it was, but the mark at that date index of the participant whose
  id is \<open>String(i)\<close>, which is the event's status. An event without a new row, or without
  a participant, changes nothing.
\<close>

theorem realtime_overwrite:
  "onRealtimeUpdate None prev = prev
   \<and> (new_student_id newRecord = None \<longrightarrow> onRealtimeUpdate (Some newRecord) prev = prev)
   \<and> length (onRealtimeUpdate (Some newRecord) prev) = length prev
   \<and> (new_student_id newRecord = Some i \<longrightarrow>
        (\<forall>k < length prev.
           ident (onRealtimeUpdate (Some newRecord) prev ! k) = ident (prev ! k)
         \<and> name (onRealtimeUpdate (Some newRecord) prev ! k) = name (prev ! k)
         \<and> length (attendance (onRealtimeUpdate (Some newRecord) prev ! k))
             = length (attendance (prev ! k))
         \<and> (\<forall>j < length (attendance (prev ! k)).
              attendance (onRealtimeUpdate (Some newRecord) prev ! k) ! j
                = (if ident (prev ! k) = js_String i \<and> int j = new_date_index newRecord
                   then new_status newRecord else attendance (prev ! k) ! j))))"
  by (auto simp: onRealtimeUpdate_def array_set_int_nth split: option.splits)

theorem realtime_overwrite_witness:
  "new_student_id \<lparr>new_student_id = Some 7, new_date_index = 1, new_status = 0\<rparr> = Some 7
   \<and> onRealtimeUpdate (Some \<lparr>new_student_id = Some 7, new_date_index = 1, new_status = 0\<rparr>) two_cards
     = [\<lparr>ident = ''12'', name = ''Ahn'', attendance = [0, 1, 0, 0, 0, 0, 0, 0, 0, 0]\<rparr>,
        \<lparr>ident = ''7'', name = ''Kim'', attendance = [1, 0, 1, 0, 0, 0, 0, 0, 0, 0]\<rparr>]
   \<and> onRealtimeUpdate (Some \<lparr>new_student_id = Some 7, new_date_index = 10, new_status = 1\<rparr>) two_cards
     = two_cards
   \<and> onRealtimeUpdate (Some \<lparr>new_student_id = Some 7, new_date_index = - 1, new_status = 1\<rparr>) two_cards
     = two_cards
   \<and> onRealtimeUpdate (Some \<lparr>new_student_id = None, new_date_index = 1, new_status = 1\<rparr>) two_cards
     = two_cards"
  using realtime_overwrite [of two_cards "\<lparr>new_student_id = Some 7, new_date_index = 1, new_status = 0\<rparr>" 7]
    realtime_overwrite [of two_cards "\<lparr>new_student_id = None, new_date_index = 1, new_status = 1\<rparr>" 7]
  by (simp add: onRealtimeUpdate_def two_cards_def js_String_def array_set_def)

section \<open>The view when the first fetch fails\<close>

lemma mset_insert_by: "mset (insert_by cmp x ys) = add_mset x (mset ys)"
  by (induction ys) auto

lemma mset_sort_by: "mset (sort_by cmp xs) = mset xs"
  by (induction xs) (simp_all add: sort_by_def mset_insert_by)

lemma set_insert_by: "set (insert_by cmp x ys) = insert x (set ys)"
  by (induction ys) auto

lemma sorted_insert_by:
  assumes "consistent_comparator cmp" "sorted_wrt (\<lambda>a b. cmp a b \<le> 0) ys"
  shows "sorted_wrt (\<lambda>a b. cmp a b \<le> 0) (insert_by cmp x ys)"
  using assms(2)
proof (induction ys)
  case Nil
  then show ?case by simp
next
  case (Cons y ys)
  from assms(1) have total: "cmp x y \<le> 0 \<or> cmp y x \<le> 0"
    and trans: "\<And>a b c. cmp a b \<le> 0 \<Longrightarrow> cmp b c \<le> 0 \<Longrightarrow> cmp a c \<le> 0"
    unfolding consistent_comparator_def by blast+
  show ?case
  proof (cases "cmp x y \<le> 0")
    case True
    with Cons.prems trans show ?thesis by auto
  next
    case False
    with total have "cmp y x \<le> 0" by simp
    with False Cons show ?thesis by (auto simp: set_insert_by)
  qed
qed

lemma sorted_sort_by:
  "consistent_comparator cmp \<Longrightarrow> sorted_wrt (\<lambda>a b. cmp a b \<le> 0) (sort_by cmp xs)"
  by (induction xs) (simp_all add: sort_by_def sorted_insert_by)

lemma consistent_on_names:
  "consistent_comparator cmp \<Longrightarrow> consistent_comparator (\<lambda>a b. cmp (f a) (f b))"
  unfolding consistent_comparator_def by blast

lemma byte_compare_le: "(byte_compare a b \<le> 0) = (a \<le> b)"
  by (auto simp: byte_compare_def)

lemma consistent_byte_compare: "consistent_comparator byte_compare"
  unfolding consistent_comparator_def byte_compare_le by auto

lemma initialList_mset:
  "mset (initialList cmp)
     = mset (map (\<lambda>(index, nm). \<lparr>ident = js_String (int index + 1), name = nm,
                                  attendance = replicate (length MEETING_DATES) 0\<rparr>)
              (enumerate 0 INITIAL_NAMES))"
  by (simp add: initialList_def mset_sort_by)

lemma initialList_absent:
  "e \<in> set (initialList cmp) \<Longrightarrow> attendance e = replicate (length MEETING_DATES) 0"
proof -
  assume "e \<in> set (initialList cmp)"
  then have "e \<in># mset (initialList cmp)" by simp
  then show ?thesis
    unfolding initialList_mset by auto
qed

lemma names_of_cards:
  "map name (map (\<lambda>(index, nm). \<lparr>ident = f index, name = nm, attendance = g\<rparr>) xs) = map snd xs"
  by (induction xs) auto

lemma initialList_names: "mset (map name (initialList cmp)) = mset INITIAL_NAMES"
proof -
  have "mset (map name (initialList cmp)) = image_mset name (mset (initialList cmp))"
    by simp
  also have "\<dots> = mset (map name (map (\<lambda>(index, nm). \<lparr>ident = js_String (int index + 1), name = nm,
                                        attendance = replicate (length MEETING_DATES) 0\<rparr>)
                    (enumerate 0 INITIAL_NAMES)))"
    by (simp only: initialList_mset mset_map)
  also have "\<dots> = mset (map snd (enumerate 0 INITIAL_NAMES))"
    by (simp only: names_of_cards)
  finally show ?thesis by (simp only: map_snd_enumerate)
qed

text \<open>
  C9. When either query of the first fetch fails, the view becomes the roster made of the
  seed names, the ids 1, 2, ... in their order, and N absent marks each, sorted with the
  locale's comparison (in non-decreasing order whenever that comparison is consistent); it
  is marked as not connected, carries the error text and is no longer loading; and the
  query of the participants has been issued once, not again.
\<close>

theorem fetch_failure_fallback:
  "(studentsReply = Failure \<or> attendanceReply = Failure \<longrightarrow>
      fst (fetchStudents cmp studentsReply attendanceReply v)
        = v\<lparr>error_text := Some LOAD_FAILED, isConnected := False,
             view_students := initialList cmp, loading := False\<rparr>
      \<and> count_list (snd (fetchStudents cmp studentsReply attendanceReply v)) SelectStudents = 1)
   \<and> mset (initialList cmp)
       = mset (map (\<lambda>(index, nm). \<lparr>ident = js_String (int index + 1), name = nm,
                                    attendance = replicate (length MEETING_DATES) 0\<rparr>)
                (enumerate 0 INITIAL_NAMES))
   \<and> mset (map name (initialList cmp)) = mset INITIAL_NAMES
   \<and> (\<forall>e \<in> set (initialList cmp). attendance e = replicate (length MEETING_DATES) 0)
   \<and> (consistent_comparator cmp
        \<longrightarrow> sorted_wrt (\<lambda>a b. cmp (name a) (name b) \<le> 0) (initialList cmp))"
proof -
  have a: "studentsReply = Failure \<or> attendanceReply = Failure \<longrightarrow>
      fst (fetchStudents cmp studentsReply attendanceReply v)
        = v\<lparr>error_text := Some LOAD_FAILED, isConnected := False,
             view_students := initialList cmp, loading := False\<rparr>
      \<and> count_list (snd (fetchStudents cmp studentsReply attendanceReply v)) SelectStudents = 1"
    by (auto simp: fetchStudents_def Let_def split: reply.splits)
  have b: "consistent_comparator cmp
        \<longrightarrow> sorted_wrt (\<lambda>a b. cmp (name a) (name b) \<le> 0) (initialList cmp)"
  proof
    assume "consistent_comparator cmp"
    then have "consistent_comparator (\<lambda>a b. cmp (name a) (name b))"
      by (rule consistent_on_names)
    then show "sorted_wrt (\<lambda>a b. cmp (name a) (name b) \<le> 0) (initialList cmp)"
      unfolding initialList_def by (rule sorted_sort_by)
  qed
  from a b initialList_mset [of cmp] initialList_names [of cmp] initialList_absent [of _ cmp]
  show ?thesis by blast
qed

lemma initialList_byte_names: "map name (initialList byte_compare) = sort INITIAL_NAMES"
  by code_simp

theorem fetch_failure_fallback_witness:
  "fetchStudents byte_compare Failure (Data []) mounting
     = (\<lparr>view_students = initialList byte_compare, loading = False, isConnected = False,
         error_text = Some LOAD_FAILED\<rparr>, [SelectStudents])
   \<and> fetchStudents byte_compare (Data []) Failure mounting
     = (\<lparr>view_students = initialList byte_compare, loading = False, isConnected = False,
         error_text = Some LOAD_FAILED\<rparr>, [SelectStudents, SelectAttendance])
   \<and> consistent_comparator byte_compare
   \<and> sorted_wrt (\<lambda>a b. byte_compare (name a) (name b) \<le> 0) (initialList byte_compare)
   \<and> map name (initialList byte_compare) = sort INITIAL_NAMES
   \<and> length (initialList byte_compare) = 20"
proof -
  have "length (initialList byte_compare) = length (sort INITIAL_NAMES)"
    using initialList_byte_names [symmetric] by (simp del: length_sort)
  then have len: "length (initialList byte_compare) = 20"
    by (simp add: INITIAL_NAMES_def)
  from fetch_failure_fallback [of Failure "Data []" byte_compare mounting]
       fetch_failure_fallback [of "Data []" Failure byte_compare mounting]
       consistent_byte_compare initialList_byte_names len
  show ?thesis
    by (simp add: fetchStudents_def mounting_def)
qed

end
